theory Spec2Isabelle
  imports Complex_Main
begin

section \<open>JavaScript values\<close>

text \<open>
  The validation library of \<^verbatim>\<open>week2/Task8/src\<close> (\<^verbatim>\<open>types.ts\<close>,
  \<^verbatim>\<open>validators/BaseValidator.ts\<close>, \<^verbatim>\<open>StringValidator.ts\<close>, \<^verbatim>\<open>NumberValidator.ts\<close>,
  \<^verbatim>\<open>BooleanValidator.ts\<close>, \<^verbatim>\<open>DateValidator.ts\<close>, \<^verbatim>\<open>ArrayValidator.ts\<close>,
  \<^verbatim>\<open>ObjectValidator.ts\<close>, \<^verbatim>\<open>Schema.ts\<close>) takes an input of type \<^verbatim>\<open>unknown\<close>.
  The inputs modelled here are: \<^verbatim>\<open>undefined\<close>, \<^verbatim>\<open>null\<close>, booleans, numbers, strings,
  \<^verbatim>\<open>Date\<close> objects, arrays, plain objects and functions.

  A number is an IEEE double. Only its comparisons are used by the library, and they are
  exact, so a finite number is modelled by a rational (every finite double is one).
  A string is the list of its code units, so that \<^verbatim>\<open>value.length\<close> is the length of
  the list.
\<close>

datatype jsnum = NaN | PosInfinity | NegInfinity | Finite rat

text \<open>The operator \<^verbatim>\<open>a < b\<close> on numbers: false as soon as one side is \<^verbatim>\<open>NaN\<close>.\<close>

fun js_lt :: "jsnum \<Rightarrow> jsnum \<Rightarrow> bool" where
  "js_lt NaN b = False"
| "js_lt a NaN = False"
| "js_lt (Finite a) (Finite b) = (a < b)"
| "js_lt a NegInfinity = False"
| "js_lt NegInfinity b = True"
| "js_lt PosInfinity b = False"
| "js_lt a PosInfinity = True"

text \<open>\<^verbatim>\<open>a > b\<close> is \<^verbatim>\<open>b < a\<close>.\<close>

definition js_gt :: "jsnum \<Rightarrow> jsnum \<Rightarrow> bool" where
  "js_gt a b = js_lt b a"

text \<open>
  A \<^verbatim>\<open>Date\<close> carries its time value (\<^verbatim>\<open>getTime()\<close>): an integer number of
  milliseconds, or \<^verbatim>\<open>NaN\<close> for an invalid date, written \<open>None\<close>.
  An object that is neither a \<^verbatim>\<open>Date\<close> nor an array is the list of its own enumerable
  properties, in insertion order. An input of this kind is a plain object: its prototype
  is \<^verbatim>\<open>Object.prototype\<close>. An own property may have any name, \<^verbatim>\<open>__proto__\<close>
  included (\<^verbatim>\<open>JSON.parse\<close> and a computed key \<^verbatim>\<open>{['__proto__']: v}\<close> create one).
\<close>

datatype jsval =
    JUndefined
  | JNull
  | JBoolean bool
  | JNumber jsnum
  | JString string
  | JDate "int option"
  | JArray "jsval list"
  | JObject "(string \<times> jsval) list"
  | JFunction

text \<open>
  What the library takes from the JavaScript engine: the conversion of a number inside a
  template literal, \<^verbatim>\<open>new Date(s).getTime()\<close> for a string \<^verbatim>\<open>s\<close> (\<open>None\<close> is
  \<^verbatim>\<open>NaN\<close>), \<^verbatim>\<open>toISOString()\<close> of a valid date, and the properties an object
  inherits: \<^verbatim>\<open>obj[key]\<close> reads an own property first and then follows the prototype
  chain, so \<^verbatim>\<open>({})['toString']\<close> is a function. \<open>object_prototype\<close> gives the value
  found on the chain of a plain object and \<open>date_prototype\<close> on the chain of a
  \<^verbatim>\<open>Date\<close>, \<open>JUndefined\<close> when there is none. Reading \<^verbatim>\<open>__proto__\<close> where it
  is no own property goes through these two functions as well (the getter of
  \<^verbatim>\<open>Object.prototype\<close> answers with the prototype of the object); writing it is
  \<open>set_prop\<close> below.
\<close>

record js_runtime =
  number_toString :: "jsnum \<Rightarrow> string"
  date_parse :: "string \<Rightarrow> int option"
  date_toISOString :: "int \<Rightarrow> string"
  object_prototype :: "string \<Rightarrow> jsval"
  date_prototype :: "string \<Rightarrow> jsval"

text \<open>\<^verbatim>\<open>objectValue[key]\<close>, for the values that pass the object type check.\<close>

fun get_prop :: "js_runtime \<Rightarrow> jsval \<Rightarrow> string \<Rightarrow> jsval" where
  "get_prop rt (JObject props) key =
     (case map_of props key of Some v \<Rightarrow> v | None \<Rightarrow> object_prototype rt key)"
| "get_prop rt (JDate t) key = date_prototype rt key"
| "get_prop rt v key = JUndefined"

text \<open>
  Giving an object the own property \<open>key\<close> with the value \<open>v\<close>: an existing own
  property keeps its place, a new one is appended.
\<close>

fun put_own_prop :: "(string \<times> 'a) list \<Rightarrow> string \<Rightarrow> 'a \<Rightarrow> (string \<times> 'a) list" where
  "put_own_prop [] key v = [(key, v)]"
| "put_own_prop ((k, x) # props) key v =
     (if k = key then (k, v) # props else (k, x) # put_own_prop props key v)"

text \<open>
  \<^verbatim>\<open>obj[key] = v\<close> on the objects the library writes to: its own \<^verbatim>\<open>errors\<close> and
  \<^verbatim>\<open>validatedObject\<close>, both created as \<^verbatim>\<open>{}\<close> and written by assignment only.
  Under every key but one the assignment gives the object that own property; the lists
  keep the order in which the loops insert, which is the order in which the loops
  enumerate. Under the key \<^verbatim>\<open>__proto__\<close> the assignment runs the setter that the
  object inherits from \<^verbatim>\<open>Object.prototype\<close>: the object gets no own property (its
  prototype is replaced by \<open>v\<close> when \<open>v\<close> is an object, and nothing happens
  otherwise), so the list of its own properties is unchanged, and neither
  \<^verbatim>\<open>Object.keys\<close> nor a later assignment under another key sees a difference.

  The lists are own properties only. An object written under \<^verbatim>\<open>__proto__\<close> with an
  object inherits from that object afterwards, no longer from \<^verbatim>\<open>Object.prototype\<close>
  directly; this is not recorded, and no statement below reads a property of such an
  object: where an output of the library is read again, the schemas are required not to
  declare the key.
\<close>

definition set_prop :: "(string \<times> 'a) list \<Rightarrow> string \<Rightarrow> 'a \<Rightarrow> (string \<times> 'a) list" where
  "set_prop props key v = (if key = ''__proto__'' then props else put_own_prop props key v)"

text \<open>The property key of an array index: its decimal digits.\<close>

definition digit_char :: "nat \<Rightarrow> char" where
  "digit_char d =
     (if d = 0 then CHR ''0'' else if d = 1 then CHR ''1'' else if d = 2 then CHR ''2''
      else if d = 3 then CHR ''3'' else if d = 4 then CHR ''4'' else if d = 5 then CHR ''5''
      else if d = 6 then CHR ''6'' else if d = 7 then CHR ''7'' else if d = 8 then CHR ''8''
      else CHR ''9'')"

fun index_key :: "nat \<Rightarrow> string" where
  "index_key i = (if i < 10 then [digit_char i] else index_key (i div 10) @ [digit_char (i mod 10)])"

declare index_key.simps [simp del]

section \<open>types.ts\<close>

text \<open>
  \<^verbatim>\<open>ValidationResult<T>\<close> is \<^verbatim>\<open>{ success, data?, error? }\<close> with
  \<^verbatim>\<open>error?: string | Record<string, any>\<close>. Every result the library builds is either
  \<^verbatim>\<open>{ success: true, data }\<close> or \<^verbatim>\<open>{ success: false, error }\<close>; the error is a
  string or a record whose members are again errors.
\<close>

datatype verror = ErrorMessage string | ErrorRecord "(string \<times> verror) list"

datatype validation_result = is_success: Success (data: jsval) | Failure (error: verror)


text \<open>
  \<^verbatim>\<open>ValidationRule<T> = (value: T) => { success: boolean; error?: string }\<close>.
\<close>

datatype rule_result = RuleSuccess | RuleFailure string

text \<open>
  The rules are closures. The only ones the library creates are those of the nine
  configuration methods, so a rule is recorded by the method that made it and its
  arguments; \<open>apply_rule\<close> is the body of the closure. A \<^verbatim>\<open>RegExp\<close> is taken as
  the predicate its \<^verbatim>\<open>test\<close> computes (no \<^verbatim>\<open>g\<close> or \<^verbatim>\<open>y\<close> flag, which would
  make \<^verbatim>\<open>test\<close> stateful). The optional \<^verbatim>\<open>message?: string\<close> is \<open>None\<close> when
  absent.
\<close>

datatype rule =
    StringMinLength jsnum "string option"
  | StringMaxLength jsnum "string option"
  | StringPattern "string \<Rightarrow> bool" "string option"
  | NumberMin jsnum "string option"
  | NumberMax jsnum "string option"
  | DateMin "int option" "string option"
  | DateMax "int option" "string option"
  | ArrayMinLength jsnum "string option"
  | ArrayMaxLength jsnum "string option"

text \<open>\<^verbatim>\<open>message || dflt\<close>: an absent or empty message is falsy.\<close>

definition or_default :: "string option \<Rightarrow> string \<Rightarrow> string" where
  "or_default message dflt =
     (case message of None \<Rightarrow> dflt | Some m \<Rightarrow> if m = [] then dflt else m)"

text \<open>\<^verbatim>\<open>value.length\<close> as a number.\<close>

definition js_length :: "'a list \<Rightarrow> jsnum" where
  "js_length xs = Finite (of_nat (length xs))"

text \<open>
  The bodies of the rule closures of \<^verbatim>\<open>StringValidator\<close>, \<^verbatim>\<open>NumberValidator\<close>,
  \<^verbatim>\<open>DateValidator\<close> and \<^verbatim>\<open>ArrayValidator\<close>. A rule only ever receives the typed
  value of its own validator class (the methods are typed by \<^verbatim>\<open>this\<close>); the
  default branches record that. Two time values compare false when one of them is \<^verbatim>\<open>NaN\<close>,
  so \<^verbatim>\<open>toISOString\<close> is only reached for a valid bound.
\<close>

definition apply_rule :: "js_runtime \<Rightarrow> rule \<Rightarrow> jsval \<Rightarrow> rule_result" where
  "apply_rule rt r typedValue =
     (case r of
        StringMinLength len message \<Rightarrow>
          (case typedValue of
             JString value \<Rightarrow>
               if js_lt (js_length value) len
               then RuleFailure (or_default message
                      (''String must be at least '' @ number_toString rt len @ '' characters long''))
               else RuleSuccess
           | _ \<Rightarrow> RuleSuccess)
      | StringMaxLength len message \<Rightarrow>
          (case typedValue of
             JString value \<Rightarrow>
               if js_gt (js_length value) len
               then RuleFailure (or_default message
                      (''String must be at most '' @ number_toString rt len @ '' characters long''))
               else RuleSuccess
           | _ \<Rightarrow> RuleSuccess)
      | StringPattern pattern message \<Rightarrow>
          (case typedValue of
             JString value \<Rightarrow>
               if \<not> pattern value
               then RuleFailure (or_default message ''String does not match required pattern'')
               else RuleSuccess
           | _ \<Rightarrow> RuleSuccess)
      | NumberMin bound message \<Rightarrow>
          (case typedValue of
             JNumber val \<Rightarrow>
               if js_lt val bound
               then RuleFailure (or_default message
                      (''Number must be at least '' @ number_toString rt bound))
               else RuleSuccess
           | _ \<Rightarrow> RuleSuccess)
      | NumberMax bound message \<Rightarrow>
          (case typedValue of
             JNumber val \<Rightarrow>
               if js_gt val bound
               then RuleFailure (or_default message
                      (''Number must be at most '' @ number_toString rt bound))
               else RuleSuccess
           | _ \<Rightarrow> RuleSuccess)
      | DateMin date message \<Rightarrow>
          (case typedValue of
             JDate value \<Rightarrow>
               (case (value, date) of
                  (Some v, Some d) \<Rightarrow>
                    if v < d
                    then RuleFailure (or_default message
                           (''Date must be on or after '' @ date_toISOString rt d))
                    else RuleSuccess
                | _ \<Rightarrow> RuleSuccess)
           | _ \<Rightarrow> RuleSuccess)
      | DateMax date message \<Rightarrow>
          (case typedValue of
             JDate value \<Rightarrow>
               (case (value, date) of
                  (Some v, Some d) \<Rightarrow>
                    if v > d
                    then RuleFailure (or_default message
                           (''Date must be on or before '' @ date_toISOString rt d))
                    else RuleSuccess
                | _ \<Rightarrow> RuleSuccess)
           | _ \<Rightarrow> RuleSuccess)
      | ArrayMinLength len message \<Rightarrow>
          (case typedValue of
             JArray value \<Rightarrow>
               if js_lt (js_length value) len
               then RuleFailure (or_default message
                      (''Array must contain at least '' @ number_toString rt len @ '' items''))
               else RuleSuccess
           | _ \<Rightarrow> RuleSuccess)
      | ArrayMaxLength len message \<Rightarrow>
          (case typedValue of
             JArray value \<Rightarrow>
               if js_gt (js_length value) len
               then RuleFailure (or_default message
                      (''Array must contain at most '' @ number_toString rt len @ '' items''))
               else RuleSuccess
           | _ \<Rightarrow> RuleSuccess))"

section \<open>validators/BaseValidator.ts\<close>

text \<open>
  A validator object: its class with the fields of the subclass (\<^verbatim>\<open>itemValidator\<close>,
  \<^verbatim>\<open>schema\<close>), the three fields of \<^verbatim>\<open>BaseValidator\<close>, and \<open>ownValidate\<close>:
  whether the instance carries the own \<^verbatim>\<open>validate\<close> property that \<^verbatim>\<open>optional()\<close>
  installs. The schema of an object validator is the list of its own properties; a
  JavaScript object holds each key once.
\<close>

datatype 'v validator_class =
    StringValidator
  | NumberValidator
  | BooleanValidator
  | DateValidator
  | ArrayValidator (itemValidator: 'v)
  | ObjectValidator (schema: "(string \<times> 'v) list")

datatype validator =
  Validator
    (vclass: "validator validator_class")
    (rules: "rule list")
    (isOptional: bool)
    (baseErrorMessage: "string option")
    (ownValidate: bool)

text \<open>
  \<^verbatim>\<open>validateType\<close> of the six classes. \<^verbatim>\<open>typeof value === 'object'\<close> holds of
  \<^verbatim>\<open>null\<close>, arrays, dates and plain objects, so the object check lets a \<^verbatim>\<open>Date\<close>
  through.
\<close>

definition validateType :: "js_runtime \<Rightarrow> 'v validator_class \<Rightarrow> string option \<Rightarrow> jsval \<Rightarrow> validation_result" where
  "validateType rt cls msg value =
     (case cls of
        StringValidator \<Rightarrow>
          (case value of
             JString s \<Rightarrow> Success (JString s)
           | _ \<Rightarrow> Failure (ErrorMessage (or_default msg ''Value must be a string'')))
      | NumberValidator \<Rightarrow>
          (case value of
             JNumber (Finite q) \<Rightarrow> Success (JNumber (Finite q))
           | _ \<Rightarrow> Failure (ErrorMessage (or_default msg ''Value must be a valid number'')))
      | BooleanValidator \<Rightarrow>
          (case value of
             JBoolean b \<Rightarrow> Success (JBoolean b)
           | _ \<Rightarrow> Failure (ErrorMessage (or_default msg ''Value must be a boolean'')))
      | DateValidator \<Rightarrow>
          (case value of
             JDate (Some t) \<Rightarrow> Success (JDate (Some t))
           | JString s \<Rightarrow>
               (case date_parse rt s of
                  Some t \<Rightarrow> Success (JDate (Some t))
                | None \<Rightarrow> Failure (ErrorMessage (or_default msg
                            ''Value must be a valid Date object or an ISO date string'')))
           | _ \<Rightarrow> Failure (ErrorMessage (or_default msg
                       ''Value must be a valid Date object or an ISO date string'')))
      | ArrayValidator item \<Rightarrow>
          (case value of
             JArray xs \<Rightarrow> Success (JArray xs)
           | _ \<Rightarrow> Failure (ErrorMessage (or_default msg ''Value must be an array'')))
      | ObjectValidator sch \<Rightarrow>
          (case value of
             JObject props \<Rightarrow> Success (JObject props)
           | JDate t \<Rightarrow> Success (JDate t)
           | _ \<Rightarrow> Failure (ErrorMessage (or_default msg ''Value must be an object''))))"

text \<open>The loop of \<^verbatim>\<open>BaseValidator.validate\<close> over \<^verbatim>\<open>this.rules\<close>.\<close>

fun run_rules :: "js_runtime \<Rightarrow> rule list \<Rightarrow> jsval \<Rightarrow> validation_result" where
  "run_rules rt [] typedValue = Success typedValue"
| "run_rules rt (r # rest) typedValue =
     (case apply_rule rt r typedValue of
        RuleFailure e \<Rightarrow> Failure (ErrorMessage e)
      | RuleSuccess \<Rightarrow> run_rules rt rest typedValue)"

text \<open>\<^verbatim>\<open>BaseValidator.validate\<close>, the method of the prototype.\<close>

definition BaseValidator_validate :: "js_runtime \<Rightarrow> validator \<Rightarrow> jsval \<Rightarrow> validation_result" where
  "BaseValidator_validate rt this value =
     (case validateType rt (vclass this) (baseErrorMessage this) value of
        Failure e \<Rightarrow> Failure e
      | Success typedValue \<Rightarrow> run_rules rt (rules this) typedValue)"

section \<open>validators/ArrayValidator.ts\<close>

text \<open>
  An array or object validator holds its children through the \<^verbatim>\<open>Validator\<close> interface
  only, so the two \<^verbatim>\<open>validate\<close> methods below take the children's \<^verbatim>\<open>validate\<close>
  as functions; \<open>validate\<close> further down ties the knot.

  \<^verbatim>\<open>baseResult.data!\<close> of an array validator is always an array; on anything else
  \<^verbatim>\<open>arrayValue.length\<close> would be \<^verbatim>\<open>undefined\<close> and the loop would not run.
\<close>

definition js_elements :: "jsval \<Rightarrow> jsval list" where
  "js_elements v = (case v of JArray xs \<Rightarrow> xs | _ \<Rightarrow> [])"

text \<open>
  The \<^verbatim>\<open>for\<close> loop of \<^verbatim>\<open>ArrayValidator.validate\<close> from index \<open>i\<close> on, with the two
  accumulators \<^verbatim>\<open>validatedArray\<close> and \<^verbatim>\<open>errors\<close>.
\<close>

fun validate_items :: "(jsval \<Rightarrow> validation_result) \<Rightarrow> nat \<Rightarrow> jsval list \<Rightarrow>
    jsval list \<times> (string \<times> verror) list \<Rightarrow> jsval list \<times> (string \<times> verror) list" where
  "validate_items itemValidate i [] (validatedArray, errors) = (validatedArray, errors)"
| "validate_items itemValidate i (item # rest) (validatedArray, errors) =
     (case itemValidate item of
        Success d \<Rightarrow> validate_items itemValidate (Suc i) rest (validatedArray @ [d], errors)
      | Failure e \<Rightarrow>
          validate_items itemValidate (Suc i) rest (validatedArray, set_prop errors (index_key i) e))"

definition ArrayValidator_validate ::
  "js_runtime \<Rightarrow> validator \<Rightarrow> (jsval \<Rightarrow> validation_result) \<Rightarrow> jsval \<Rightarrow> validation_result" where
  "ArrayValidator_validate rt this itemValidate value =
     (case BaseValidator_validate rt this value of
        Failure e \<Rightarrow> Failure e
      | Success arrayValue \<Rightarrow>
          (case validate_items itemValidate 0 (js_elements arrayValue) ([], []) of
             (validatedArray, errors) \<Rightarrow>
               if errors \<noteq> []
               then Failure (ErrorRecord
                      [(''message'', ErrorMessage ''Array contains invalid items''),
                       (''errors'', ErrorRecord errors)])
               else Success (JArray validatedArray)))"

section \<open>validators/ObjectValidator.ts\<close>

text \<open>
  The \<^verbatim>\<open>for (const key in this.schema)\<close> loop of \<^verbatim>\<open>ObjectValidator.validate\<close>.
  The schema is the list of the own enumerable properties of \<^verbatim>\<open>this.schema\<close>, in the
  order of the loop; the \<^verbatim>\<open>hasOwnProperty\<close> guard holds of these keys and skips what
  the schema object inherits. The input is read with \<^verbatim>\<open>objectValue[key]\<close>, and the
  two results are written with \<^verbatim>\<open>validatedObject[key] = result.data\<close> and
  \<^verbatim>\<open>errors[key] = result.error\<close>, whatever the key is.
\<close>

fun validate_fields :: "js_runtime \<Rightarrow> jsval \<Rightarrow> (string \<times> (jsval \<Rightarrow> validation_result)) list \<Rightarrow>
    (string \<times> jsval) list \<times> (string \<times> verror) list \<Rightarrow>
    (string \<times> jsval) list \<times> (string \<times> verror) list" where
  "validate_fields rt objectValue [] (validatedObject, errors) = (validatedObject, errors)"
| "validate_fields rt objectValue ((key, fieldValidate) # rest) (validatedObject, errors) =
     (case fieldValidate (get_prop rt objectValue key) of
        Success d \<Rightarrow>
          if d \<noteq> JUndefined
          then validate_fields rt objectValue rest (set_prop validatedObject key d, errors)
          else validate_fields rt objectValue rest (validatedObject, errors)
      | Failure e \<Rightarrow> validate_fields rt objectValue rest (validatedObject, set_prop errors key e))"

definition ObjectValidator_validate ::
  "js_runtime \<Rightarrow> validator \<Rightarrow> (string \<times> (jsval \<Rightarrow> validation_result)) list \<Rightarrow> jsval \<Rightarrow>
   validation_result" where
  "ObjectValidator_validate rt this fieldValidators value =
     (case BaseValidator_validate rt this value of
        Failure e \<Rightarrow> Failure e
      | Success objectValue \<Rightarrow>
          (case validate_fields rt objectValue fieldValidators ([], []) of
             (validatedObject, errors) \<Rightarrow>
               if errors \<noteq> []
               then Failure (ErrorRecord
                      [(''message'', ErrorMessage ''Object validation failed''),
                       (''errors'', ErrorRecord errors)])
               else Success (JObject validatedObject)))"

section \<open>Calling validate on a validator\<close>

text \<open>
  \<^verbatim>\<open>v.validate(value)\<close>: the own property installed by \<^verbatim>\<open>optional()\<close> when the
  instance has one, which answers \<^verbatim>\<open>null\<close> and \<^verbatim>\<open>undefined\<close> itself and hands every
  other value to the method of the prototype (\<^verbatim>\<open>originalValidate\<close>); otherwise the
  method of the prototype: the override of \<^verbatim>\<open>ArrayValidator\<close> or \<^verbatim>\<open>ObjectValidator\<close>,
  or \<^verbatim>\<open>BaseValidator.validate\<close>.
\<close>

fun validate :: "js_runtime \<Rightarrow> validator \<Rightarrow> jsval \<Rightarrow> validation_result" where
  "validate rt (Validator cls rs opt msg own) value =
     (if own \<and> (value = JNull \<or> value = JUndefined) then Success JUndefined
      else
        (case cls of
           ArrayValidator item \<Rightarrow>
             ArrayValidator_validate rt (Validator cls rs opt msg own)
               (\<lambda>x. validate rt item x) value
         | ObjectValidator sch \<Rightarrow>
             ObjectValidator_validate rt (Validator cls rs opt msg own)
               (map (\<lambda>(key, v). (key, \<lambda>x. validate rt v x)) sch) value
         | _ \<Rightarrow> BaseValidator_validate rt (Validator cls rs opt msg own) value))"

declare validate.simps [simp del]

section \<open>The configuration methods, as values\<close>

text \<open>
  \<^verbatim>\<open>clone()\<close> is \<^verbatim>\<open>new C(this)\<close> (with \<^verbatim>\<open>this.itemValidator\<close> or
  \<^verbatim>\<open>this.schema\<close> for the two container classes): the constructor copies
  \<^verbatim>\<open>rules\<close>, \<^verbatim>\<open>isOptional\<close> and \<^verbatim>\<open>baseErrorMessage\<close> from \<^verbatim>\<open>other\<close>. An own
  \<^verbatim>\<open>validate\<close> property of \<^verbatim>\<open>other\<close> is not copied.
\<close>

definition clone :: "validator \<Rightarrow> validator" where
  "clone this =
     Validator (vclass this) (rules this) (isOptional this) (baseErrorMessage this) False"

definition addRule :: "validator \<Rightarrow> rule \<Rightarrow> validator" where
  "addRule this r =
     (let newValidator = clone this
      in Validator (vclass newValidator) (rules newValidator @ [r]) (isOptional newValidator)
           (baseErrorMessage newValidator) (ownValidate newValidator))"

definition optional :: "validator \<Rightarrow> validator" where
  "optional this =
     (let newValidator = clone this
      in Validator (vclass newValidator) (rules newValidator) True
           (baseErrorMessage newValidator) True)"

definition withMessage :: "validator \<Rightarrow> string \<Rightarrow> validator" where
  "withMessage this message =
     (let newValidator = clone this
      in Validator (vclass newValidator) (rules newValidator) (isOptional newValidator)
           (Some message) (ownValidate newValidator))"

text \<open>The rule-adding methods of the four classes that have them.\<close>

definition StringValidator_minLength :: "validator \<Rightarrow> jsnum \<Rightarrow> string option \<Rightarrow> validator" where
  "StringValidator_minLength this len message = addRule this (StringMinLength len message)"

definition StringValidator_maxLength :: "validator \<Rightarrow> jsnum \<Rightarrow> string option \<Rightarrow> validator" where
  "StringValidator_maxLength this len message = addRule this (StringMaxLength len message)"

definition StringValidator_pattern :: "validator \<Rightarrow> (string \<Rightarrow> bool) \<Rightarrow> string option \<Rightarrow> validator" where
  "StringValidator_pattern this pattern message = addRule this (StringPattern pattern message)"

definition NumberValidator_min :: "validator \<Rightarrow> jsnum \<Rightarrow> string option \<Rightarrow> validator" where
  "NumberValidator_min this bound message = addRule this (NumberMin bound message)"

definition NumberValidator_max :: "validator \<Rightarrow> jsnum \<Rightarrow> string option \<Rightarrow> validator" where
  "NumberValidator_max this bound message = addRule this (NumberMax bound message)"

definition DateValidator_min :: "validator \<Rightarrow> int option \<Rightarrow> string option \<Rightarrow> validator" where
  "DateValidator_min this date message = addRule this (DateMin date message)"

definition DateValidator_max :: "validator \<Rightarrow> int option \<Rightarrow> string option \<Rightarrow> validator" where
  "DateValidator_max this date message = addRule this (DateMax date message)"

definition ArrayValidator_minLength :: "validator \<Rightarrow> jsnum \<Rightarrow> string option \<Rightarrow> validator" where
  "ArrayValidator_minLength this len message = addRule this (ArrayMinLength len message)"

definition ArrayValidator_maxLength :: "validator \<Rightarrow> jsnum \<Rightarrow> string option \<Rightarrow> validator" where
  "ArrayValidator_maxLength this len message = addRule this (ArrayMaxLength len message)"

section \<open>Schema.ts\<close>

definition new_validator :: "validator validator_class \<Rightarrow> validator" where
  "new_validator cls = Validator cls [] False None False"

definition Schema_string :: validator where
  "Schema_string = new_validator StringValidator"

definition Schema_number :: validator where
  "Schema_number = new_validator NumberValidator"

definition Schema_boolean :: validator where
  "Schema_boolean = new_validator BooleanValidator"

definition Schema_date :: validator where
  "Schema_date = new_validator DateValidator"

definition Schema_object :: "(string \<times> validator) list \<Rightarrow> validator" where
  "Schema_object sch = new_validator (ObjectValidator sch)"

definition Schema_array :: "validator \<Rightarrow> validator" where
  "Schema_array item = new_validator (ArrayValidator item)"

section \<open>The validators as objects in a store\<close>

text \<open>
  The configuration methods mutate: \<^verbatim>\<open>newValidator.rules.push(rule)\<close>,
  \<^verbatim>\<open>newValidator.isOptional = true\<close>, \<^verbatim>\<open>newValidator.validate = ...\<close>,
  \<^verbatim>\<open>newValidator.baseErrorMessage = message\<close>. Whether the receiver is affected
  depends on what \<^verbatim>\<open>newValidator\<close> shares with it, so here a validator is an object at
  a reference and its \<^verbatim>\<open>rules\<close> field is a reference to an array. The children of a
  container validator are kept by value: no method of the library writes to a validator
  it did not create in the same call.
\<close>

type_synonym ref = nat

record validator_object =
  obj_class :: "validator validator_class"
  obj_rules :: ref
  obj_isOptional :: bool
  obj_baseErrorMessage :: "string option"
  obj_ownValidate :: bool

record store =
  objects :: "ref \<Rightarrow> validator_object option"
  arrays :: "ref \<Rightarrow> rule list option"
  next_ref :: ref

definition empty_store :: store where
  "empty_store = \<lparr>objects = Map.empty, arrays = Map.empty, next_ref = 0\<rparr>"

text \<open>An array literal or spread: a new array at a reference not in use.\<close>

definition new_array :: "store \<Rightarrow> rule list \<Rightarrow> store \<times> ref" where
  "new_array st xs =
     (st\<lparr>arrays := (arrays st)(next_ref st \<mapsto> xs), next_ref := Suc (next_ref st)\<rparr>,
      next_ref st)"

text \<open>
  \<^verbatim>\<open>new C(..., other)\<close>: the field initialisers (\<^verbatim>\<open>rules = []\<close>,
  \<^verbatim>\<open>isOptional = false\<close>, no \<^verbatim>\<open>baseErrorMessage\<close>), then the constructor body:
  \<^verbatim>\<open>this.rules = [...other.rules]\<close> and the two other copies when \<^verbatim>\<open>other\<close> is given.
  The result is \<open>None\<close> only for a reference that is not in the store, which no
  JavaScript expression produces.
\<close>

definition construct :: "store \<Rightarrow> validator validator_class \<Rightarrow> ref option \<Rightarrow> (store \<times> ref) option" where
  "construct st cls other =
     (case new_array st [] of
        (st1, initial) \<Rightarrow>
          let this = next_ref st1;
              fresh = \<lparr>obj_class = cls, obj_rules = initial, obj_isOptional = False,
                       obj_baseErrorMessage = None, obj_ownValidate = False\<rparr>;
              st2 = st1\<lparr>objects := (objects st1)(this \<mapsto> fresh), next_ref := Suc this\<rparr>
          in case other of
               None \<Rightarrow> Some (st2, this)
             | Some orig \<Rightarrow>
                 (case objects st2 orig of
                    None \<Rightarrow> None
                  | Some ob \<Rightarrow>
                      (case arrays st2 (obj_rules ob) of
                         None \<Rightarrow> None
                       | Some rs \<Rightarrow>
                           (case new_array st2 rs of
                              (st3, copy) \<Rightarrow>
                                Some (st3\<lparr>objects := (objects st3)(this \<mapsto>
                                        fresh\<lparr>obj_rules := copy,
                                              obj_isOptional := obj_isOptional ob,
                                              obj_baseErrorMessage := obj_baseErrorMessage ob\<rparr>)\<rparr>,
                                      this)))))"

definition store_clone :: "store \<Rightarrow> ref \<Rightarrow> (store \<times> ref) option" where
  "store_clone st this =
     (case objects st this of
        None \<Rightarrow> None
      | Some ob \<Rightarrow> construct st (obj_class ob) (Some this))"

text \<open>\<^verbatim>\<open>addRule\<close>: clone, then push onto the array the clone's \<^verbatim>\<open>rules\<close> refers to.\<close>

definition store_addRule :: "store \<Rightarrow> ref \<Rightarrow> rule \<Rightarrow> (store \<times> ref) option" where
  "store_addRule st this r =
     (case store_clone st this of
        None \<Rightarrow> None
      | Some (st1, newValidator) \<Rightarrow>
          (case objects st1 newValidator of
             None \<Rightarrow> None
           | Some ob \<Rightarrow>
               (case arrays st1 (obj_rules ob) of
                  None \<Rightarrow> None
                | Some rs \<Rightarrow>
                    Some (st1\<lparr>arrays := (arrays st1)(obj_rules ob \<mapsto> rs @ [r])\<rparr>,
                          newValidator))))"

definition store_optional :: "store \<Rightarrow> ref \<Rightarrow> (store \<times> ref) option" where
  "store_optional st this =
     (case store_clone st this of
        None \<Rightarrow> None
      | Some (st1, newValidator) \<Rightarrow>
          (case objects st1 newValidator of
             None \<Rightarrow> None
           | Some ob \<Rightarrow>
               Some (st1\<lparr>objects := (objects st1)(newValidator \<mapsto>
                       ob\<lparr>obj_isOptional := True, obj_ownValidate := True\<rparr>)\<rparr>,
                     newValidator)))"

definition store_withMessage :: "store \<Rightarrow> ref \<Rightarrow> string \<Rightarrow> (store \<times> ref) option" where
  "store_withMessage st this message =
     (case store_clone st this of
        None \<Rightarrow> None
      | Some (st1, newValidator) \<Rightarrow>
          (case objects st1 newValidator of
             None \<Rightarrow> None
           | Some ob \<Rightarrow>
               Some (st1\<lparr>objects := (objects st1)(newValidator \<mapsto>
                       ob\<lparr>obj_baseErrorMessage := Some message\<rparr>)\<rparr>,
                     newValidator)))"

text \<open>
  A call of a configuration method: \<^verbatim>\<open>minLength\<close>, \<^verbatim>\<open>maxLength\<close>, \<^verbatim>\<open>pattern\<close>,
  \<^verbatim>\<open>min\<close> and \<^verbatim>\<open>max\<close> are \<^verbatim>\<open>addRule\<close> of the closure they build; then
  \<^verbatim>\<open>optional\<close> and \<^verbatim>\<open>withMessage\<close>.
\<close>

datatype configuration = AddRule rule | Optional | WithMessage string

definition store_configure :: "store \<Rightarrow> ref \<Rightarrow> configuration \<Rightarrow> (store \<times> ref) option" where
  "store_configure st this c =
     (case c of
        AddRule r \<Rightarrow> store_addRule st this r
      | Optional \<Rightarrow> store_optional st this
      | WithMessage message \<Rightarrow> store_withMessage st this message)"

definition configure :: "validator \<Rightarrow> configuration \<Rightarrow> validator" where
  "configure this c =
     (case c of
        AddRule r \<Rightarrow> addRule this r
      | Optional \<Rightarrow> optional this
      | WithMessage message \<Rightarrow> withMessage this message)"

text \<open>The validator an object of the store stands for, read off its fields.\<close>

definition snapshot :: "store \<Rightarrow> ref \<Rightarrow> validator option" where
  "snapshot st r =
     (case objects st r of
        None \<Rightarrow> None
      | Some ob \<Rightarrow>
          (case arrays st (obj_rules ob) of
             None \<Rightarrow> None
           | Some rs \<Rightarrow>
               Some (Validator (obj_class ob) rs (obj_isOptional ob)
                       (obj_baseErrorMessage ob) (obj_ownValidate ob))))"

text \<open>
  The references of a store are below \<open>next_ref\<close>, and the \<^verbatim>\<open>rules\<close> of every object
  is an array of the store.
\<close>

definition wf_store :: "store \<Rightarrow> bool" where
  "wf_store st \<longleftrightarrow>
     (\<forall>r ob. objects st r = Some ob \<longrightarrow> r < next_ref st \<and> arrays st (obj_rules ob) \<noteq> None) \<and>
     (\<forall>a rs. arrays st a = Some rs \<longrightarrow> a < next_ref st)"

section \<open>An engine for the examples\<close>

text \<open>
  The closed examples below need one runtime. It is a part of a JavaScript engine, enough
  for the examples, and agrees with JavaScript on this part only:

  \<^item> it prints \<^verbatim>\<open>NaN\<close>, the infinities and the integers of magnitude below
    \<open>2\<^sup>5\<^sup>3\<close> as JavaScript does, an integer by its decimal digits; every other number
    (an integer from \<open>2\<^sup>5\<^sup>3\<close> on, a number that is not an integer) is printed as
    \<^verbatim>\<open>?\<close>, which is not what JavaScript prints;
  \<^item> it prints a date by the algorithm of \<^verbatim>\<open>toISOString\<close>;
  \<^item> it knows the time values of the three date strings of the examples; every other
    string is taken as unparseable, which JavaScript does not do of every other string;
  \<^item> a plain object and a \<^verbatim>\<open>Date\<close> inherit the function-valued members of
    \<^verbatim>\<open>Object.prototype\<close> and \<^verbatim>\<open>Date.prototype\<close>, and under \<^verbatim>\<open>__proto__\<close> the
    prototype itself, an object without enumerable properties, written \<open>JObject []\<close>.

  No example prints a number, parses a string or reads a property outside this part.
  Every theorem that is not an example holds of all runtimes.
\<close>

definition int_toString :: "int \<Rightarrow> string" where
  "int_toString n = (if n < 0 then CHR ''-'' # index_key (nat (- n)) else index_key (nat n))"

definition example_number_toString :: "jsnum \<Rightarrow> string" where
  "example_number_toString x =
     (case x of
        NaN \<Rightarrow> ''NaN''
      | PosInfinity \<Rightarrow> ''Infinity''
      | NegInfinity \<Rightarrow> ''-Infinity''
      | Finite q \<Rightarrow>
          if q = of_int \<lfloor>q\<rfloor> \<and> \<bar>q\<bar> < 9007199254740992 then int_toString \<lfloor>q\<rfloor> else ''?'')"

definition pad :: "nat \<Rightarrow> nat \<Rightarrow> string" where
  "pad width n = replicate (width - length (index_key n)) (CHR ''0'') @ index_key n"

definition example_toISOString :: "int \<Rightarrow> string" where
  "example_toISOString t =
     (let days = t div 86400000;
          ms = nat (t mod 86400000);
          z = days + 719468;
          era = z div 146097;
          doe = z mod 146097;
          yoe = (doe - doe div 1460 + doe div 36524 - doe div 146096) div 365;
          doy = doe - (365 * yoe + yoe div 4 - yoe div 100);
          mp = (5 * doy + 2) div 153;
          d = doy - (153 * mp + 2) div 5 + 1;
          m = (if mp < 10 then mp + 3 else mp - 9);
          y = yoe + era * 400 + (if m \<le> 2 then 1 else 0);
          year = (if 0 \<le> y \<and> y \<le> 9999 then pad 4 (nat y)
                  else (if y < 0 then ''-'' else ''+'') @ pad 6 (nat \<bar>y\<bar>))
      in year @ ''-'' @ pad 2 (nat m) @ ''-'' @ pad 2 (nat d) @ ''T'' @
         pad 2 (ms div 3600000) @ '':'' @ pad 2 (ms div 60000 mod 60) @ '':'' @
         pad 2 (ms div 1000 mod 60) @ ''.'' @ pad 3 (ms mod 1000) @ ''Z'')"

definition example_date_parse :: "string \<Rightarrow> int option" where
  "example_date_parse = map_of
     [(''1970-01-01T00:00:00.000Z'', 0),
      (''2024-01-01'', 1704067200000),
      (''2024-01-01T00:00:00.000Z'', 1704067200000)]"

definition object_prototype_methods :: "string list" where
  "object_prototype_methods =
     [''constructor'', ''toString'', ''toLocaleString'', ''valueOf'', ''hasOwnProperty'',
      ''isPrototypeOf'', ''propertyIsEnumerable'', ''__defineGetter__'', ''__defineSetter__'',
      ''__lookupGetter__'', ''__lookupSetter__'']"

definition date_prototype_methods :: "string list" where
  "date_prototype_methods =
     [''constructor'', ''toString'', ''toDateString'', ''toTimeString'', ''toISOString'',
      ''toUTCString'', ''toGMTString'', ''toJSON'', ''toLocaleString'', ''toLocaleDateString'',
      ''toLocaleTimeString'', ''valueOf'', ''getTime'', ''setTime'', ''getTimezoneOffset'',
      ''getDate'', ''setDate'', ''getDay'', ''getFullYear'', ''setFullYear'', ''getHours'',
      ''setHours'', ''getMilliseconds'', ''setMilliseconds'', ''getMinutes'', ''setMinutes'',
      ''getMonth'', ''setMonth'', ''getSeconds'', ''setSeconds'', ''getYear'', ''setYear'',
      ''getUTCDate'', ''setUTCDate'', ''getUTCDay'', ''getUTCFullYear'', ''setUTCFullYear'',
      ''getUTCHours'', ''setUTCHours'', ''getUTCMilliseconds'', ''setUTCMilliseconds'',
      ''getUTCMinutes'', ''setUTCMinutes'', ''getUTCMonth'', ''setUTCMonth'', ''getUTCSeconds'',
      ''setUTCSeconds'']"

definition example_object_prototype :: "string \<Rightarrow> jsval" where
  "example_object_prototype key =
     (if key \<in> set object_prototype_methods then JFunction
      else if key = ''__proto__'' then JObject []
      else JUndefined)"

definition example_date_prototype :: "string \<Rightarrow> jsval" where
  "example_date_prototype key =
     (if key \<in> set date_prototype_methods then JFunction else example_object_prototype key)"

definition example_runtime :: js_runtime where
  "example_runtime =
     \<lparr>number_toString = example_number_toString,
      date_parse = example_date_parse,
      date_toISOString = example_toISOString,
      object_prototype = example_object_prototype,
      date_prototype = example_date_prototype\<rparr>"

section \<open>The results of the two loops, in closed form\<close>

text \<open>
  What the loop of \<^verbatim>\<open>ArrayValidator.validate\<close> leaves in \<^verbatim>\<open>errors\<close> and in
  \<^verbatim>\<open>validatedArray\<close>, and the loop of \<^verbatim>\<open>ObjectValidator.validate\<close> in \<^verbatim>\<open>errors\<close>
  and \<^verbatim>\<open>validatedObject\<close>, written without accumulators: the own properties of the
  two objects, so a field named \<^verbatim>\<open>__proto__\<close> leaves nothing in either. The lemmas
  \<open>validate_items_result\<close> and \<open>validate_fields_result\<close> below prove that the loops
  compute them.
\<close>

definition item_errors :: "(jsval \<Rightarrow> validation_result) \<Rightarrow> nat \<Rightarrow> jsval list \<Rightarrow> (string \<times> verror) list" where
  "item_errors f i xs =
     map (\<lambda>(j, x). (index_key j, error (f x)))
       (filter (\<lambda>(j, x). \<not> is_success (f x)) (enumerate i xs))"

definition item_data :: "(jsval \<Rightarrow> validation_result) \<Rightarrow> jsval list \<Rightarrow> jsval list" where
  "item_data f xs = map (\<lambda>x. data (f x)) (filter (\<lambda>x. is_success (f x)) xs)"

definition field_errors :: "js_runtime \<Rightarrow> jsval \<Rightarrow> (string \<times> (jsval \<Rightarrow> validation_result)) list \<Rightarrow> (string \<times> verror) list" where
  "field_errors rt ov fs =
     map (\<lambda>(k, f). (k, error (f (get_prop rt ov k))))
       (filter (\<lambda>(k, f). k \<noteq> ''__proto__'' \<and> \<not> is_success (f (get_prop rt ov k))) fs)"

definition field_data :: "js_runtime \<Rightarrow> jsval \<Rightarrow> (string \<times> (jsval \<Rightarrow> validation_result)) list \<Rightarrow> (string \<times> jsval) list" where
  "field_data rt ov fs =
     map (\<lambda>(k, f). (k, data (f (get_prop rt ov k))))
       (filter (\<lambda>(k, f). k \<noteq> ''__proto__'' \<and> is_success (f (get_prop rt ov k)) \<and>
                         data (f (get_prop rt ov k)) \<noteq> JUndefined) fs)"

text \<open>The children of an object validator as \<^verbatim>\<open>validate\<close> passes them to its loop.\<close>

definition schema_validators :: "js_runtime \<Rightarrow> (string \<times> validator) list \<Rightarrow>
    (string \<times> (jsval \<Rightarrow> validation_result)) list" where
  "schema_validators rt sch = map (\<lambda>(key, v). (key, validate rt v)) sch"

text \<open>
  A validator tree in which every object schema holds each key once and declares neither
  the key \<^verbatim>\<open>__proto__\<close> nor a key that a plain object inherits from
  \<^verbatim>\<open>Object.prototype\<close>.
\<close>

fun own_keys_only :: "js_runtime \<Rightarrow> validator \<Rightarrow> bool" where
  "own_keys_only rt (Validator cls rs opt msg own) =
     (case cls of
        ArrayValidator item \<Rightarrow> own_keys_only rt item
      | ObjectValidator sch \<Rightarrow>
          distinct (map fst sch) \<and>
          (\<forall>(key, v)\<in>set sch.
             key \<noteq> ''__proto__'' \<and> object_prototype rt key = JUndefined \<and> own_keys_only rt v)
      | _ \<Rightarrow> True)"

section \<open>Property keys and assignments\<close>

lemma set_prop_proto: "set_prop ps ''__proto__'' v = ps"
  by (simp add: set_prop_def)

lemma map_of_put_own_prop: "map_of (put_own_prop ps k v) = (map_of ps)(k \<mapsto> v)"
  by (induction ps) (auto simp: fun_eq_iff)

lemma keys_put_own_prop: "fst ` set (put_own_prop ps k v) = insert k (fst ` set ps)"
  by (induction ps) force+

lemma put_own_prop_fresh: "k \<notin> fst ` set ps \<Longrightarrow> put_own_prop ps k v = ps @ [(k, v)]"
  by (induction ps) auto

lemma map_of_set_prop:
  "k \<noteq> ''__proto__'' \<Longrightarrow> map_of (set_prop ps k v) = (map_of ps)(k \<mapsto> v)"
  by (simp add: set_prop_def map_of_put_own_prop)

lemma keys_set_prop:
  "k \<noteq> ''__proto__'' \<Longrightarrow> fst ` set (set_prop ps k v) = insert k (fst ` set ps)"
  by (simp add: set_prop_def keys_put_own_prop)

lemma set_prop_fresh:
  "k \<noteq> ''__proto__'' \<Longrightarrow> k \<notin> fst ` set ps \<Longrightarrow> set_prop ps k v = ps @ [(k, v)]"
  by (simp add: set_prop_def put_own_prop_fresh)

lemma digit_char_inj: "a < 10 \<Longrightarrow> b < 10 \<Longrightarrow> digit_char a = digit_char b \<Longrightarrow> a = b"
  unfolding digit_char_def by (auto split: if_splits) arith

lemma index_key_not_Nil: "index_key i \<noteq> []"
  by (subst index_key.simps) simp

lemma digit_char_not_underscore: "digit_char d \<noteq> CHR ''_''"
  by (simp add: digit_char_def)

lemma index_key_last: "last (index_key i) = digit_char (if i < 10 then i else i mod 10)"
  by (subst index_key.simps) simp

lemma index_key_not_proto: "index_key i \<noteq> ''__proto__''"
proof
  assume eq: "index_key i = ''__proto__''"
  have "last (index_key i) = CHR ''_''"
    by (simp only: eq) simp
  then show False
    by (simp add: index_key_last digit_char_not_underscore)
qed

lemma index_key_inj: "index_key i = index_key j \<Longrightarrow> i = j"
proof (induction i arbitrary: j rule: index_key.induct)
  case (1 i)
  show ?case
  proof (cases "i < 10")
    case small_i: True
    show ?thesis
    proof (cases "j < 10")
      case True
      with small_i "1.prems" show ?thesis
        by (simp add: index_key.simps[of i] index_key.simps[of j] digit_char_inj)
    next
      case False
      with small_i "1.prems" index_key_not_Nil[of "j div 10"] show ?thesis
        by (simp add: index_key.simps[of i] index_key.simps[of j] Cons_eq_append_conv)
    qed
  next
    case big_i: False
    show ?thesis
    proof (cases "j < 10")
      case True
      with big_i "1.prems" index_key_not_Nil[of "i div 10"] show ?thesis
        by (simp add: index_key.simps[of i] index_key.simps[of j] append_eq_Cons_conv)
    next
      case False
      with big_i "1.prems" have eq: "index_key (i div 10) = index_key (j div 10)"
        and d: "digit_char (i mod 10) = digit_char (j mod 10)"
        by (simp_all add: index_key.simps[of i] index_key.simps[of j])
      from "1.IH"[OF big_i eq] have "i div 10 = j div 10" .
      moreover from d have "i mod 10 = j mod 10"
        by (intro digit_char_inj) simp_all
      ultimately show ?thesis
        by (metis div_mult_mod_eq)
    qed
  qed
qed

section \<open>The loops\<close>

lemma item_errors_Nil [simp]: "item_errors f i [] = []"
  by (simp add: item_errors_def)

lemma item_errors_Cons:
  "item_errors f i (x # xs) =
     (if is_success (f x) then [] else [(index_key i, error (f x))]) @ item_errors f (Suc i) xs"
  by (simp add: item_errors_def)

lemma item_data_Nil [simp]: "item_data f [] = []"
  by (simp add: item_data_def)

lemma item_data_Cons:
  "item_data f (x # xs) = (if is_success (f x) then [data (f x)] else []) @ item_data f xs"
  by (simp add: item_data_def)

lemma validate_items_result:
  "\<forall>j\<ge>i. index_key j \<notin> fst ` set errs \<Longrightarrow>
   validate_items f i xs (va, errs) = (va @ item_data f xs, errs @ item_errors f i xs)"
proof (induction xs arbitrary: i va errs)
  case Nil
  show ?case by simp
next
  case (Cons x xs)
  show ?case
  proof (cases "f x")
    case (Success d)
    have "\<forall>j\<ge>Suc i. index_key j \<notin> fst ` set errs"
      using Cons.prems by simp
    from Cons.IH[OF this] Success show ?thesis
      by (simp add: item_data_Cons item_errors_Cons)
  next
    case (Failure e)
    have fresh: "index_key i \<notin> fst ` set errs"
      using Cons.prems by simp
    have "\<forall>j\<ge>Suc i. index_key j \<notin> fst ` set (set_prop errs (index_key i) e)"
    proof (intro allI impI)
      fix j assume "Suc i \<le> j"
      then have "index_key j \<noteq> index_key i"
        using index_key_inj[of j i] by auto
      moreover have "index_key j \<notin> fst ` set errs"
        using Cons.prems \<open>Suc i \<le> j\<close> by simp
      ultimately show "index_key j \<notin> fst ` set (set_prop errs (index_key i) e)"
        by (simp add: keys_set_prop index_key_not_proto)
    qed
    from Cons.IH[OF this] Failure fresh show ?thesis
      by (simp add: item_data_Cons item_errors_Cons set_prop_fresh index_key_not_proto)
  qed
qed


lemma item_errors_distinct: "distinct (map fst (item_errors f i xs))"
proof -
  have "map fst (item_errors f i xs) =
        map index_key (map fst (filter (\<lambda>(j, x). \<not> is_success (f x)) (enumerate i xs)))"
    by (simp add: item_errors_def case_prod_unfold comp_def)
  moreover have "distinct (map fst (filter (\<lambda>(j, x). \<not> is_success (f x)) (enumerate i xs)))"
    by (rule distinct_map_filter) simp
  ultimately show ?thesis
    by (simp add: distinct_map inj_on_def index_key_inj del: map_map)
qed

lemma item_errors_lookup:
  assumes "j < length xs" and "f (xs ! j) = Failure e"
  shows "map_of (item_errors f 0 xs) (index_key j) = Some e"
proof -
  have "(j, xs ! j) \<in> set (enumerate 0 xs)"
    using assms(1) by (simp add: in_set_enumerate_eq)
  with assms(2) have "(index_key j, e) \<in> set (item_errors f 0 xs)"
    by (force simp: item_errors_def)
  then show ?thesis
    by (simp add: item_errors_distinct)
qed

lemma item_errors_empty_iff:
  "item_errors f i xs = [] \<longleftrightarrow> (\<forall>x\<in>set xs. is_success (f x))"
  by (induction xs arbitrary: i) (auto simp: item_errors_Cons)

lemma item_data_all: "\<forall>x\<in>set xs. is_success (f x) \<Longrightarrow> item_data f xs = map (\<lambda>x. data (f x)) xs"
  by (simp add: item_data_def)

lemma field_errors_Nil [simp]: "field_errors rt ov [] = []"
  by (simp add: field_errors_def)

lemma field_data_Nil [simp]: "field_data rt ov [] = []"
  by (simp add: field_data_def)

lemma field_errors_Cons:
  "field_errors rt ov ((k, f) # fs) =
     (if k \<noteq> ''__proto__'' \<and> \<not> is_success (f (get_prop rt ov k))
      then [(k, error (f (get_prop rt ov k)))] else [])
     @ field_errors rt ov fs"
  by (simp add: field_errors_def)

lemma field_data_Cons:
  "field_data rt ov ((k, f) # fs) =
     (if k \<noteq> ''__proto__'' \<and> is_success (f (get_prop rt ov k)) \<and>
         data (f (get_prop rt ov k)) \<noteq> JUndefined
      then [(k, data (f (get_prop rt ov k)))] else [])
     @ field_data rt ov fs"
  by (simp add: field_data_def)

lemma validate_fields_result:
  "distinct (map fst fs) \<Longrightarrow> fst ` set fs \<inter> fst ` set vo = {} \<Longrightarrow>
   fst ` set fs \<inter> fst ` set errs = {} \<Longrightarrow>
   validate_fields rt ov fs (vo, errs) = (vo @ field_data rt ov fs, errs @ field_errors rt ov fs)"
proof (induction fs arbitrary: vo errs)
  case Nil
  show ?case by simp
next
  case (Cons p fs)
  obtain k f where p: "p = (k, f)" by (cases p)
  have d: "distinct (map fst fs)" and knew: "k \<notin> fst ` set fs"
    and kvo: "k \<notin> fst ` set vo" and kerrs: "k \<notin> fst ` set errs"
    and vo: "fst ` set fs \<inter> fst ` set vo = {}" and errs: "fst ` set fs \<inter> fst ` set errs = {}"
    using Cons.prems by (auto simp: p)
  show ?case
  proof (cases "k = ''__proto__''")
    case True
    from Cons.IH[OF d vo errs] show ?thesis
      by (simp add: p True set_prop_proto field_data_Cons field_errors_Cons
          split: validation_result.splits)
  next
    case named: False
    show ?thesis
    proof (cases "f (get_prop rt ov k)")
      case (Success dd)
      show ?thesis
      proof (cases "dd = JUndefined")
        case True
        with Success Cons.IH[OF d vo errs] show ?thesis
          by (simp add: p field_data_Cons field_errors_Cons)
      next
        case False
        have "fst ` set fs \<inter> fst ` set (set_prop vo k dd) = {}"
          using vo knew named by (auto simp: keys_set_prop)
        from Cons.IH[OF d this errs] Success False kvo named show ?thesis
          by (simp add: p field_data_Cons field_errors_Cons set_prop_fresh)
      qed
    next
      case (Failure e)
      have "fst ` set fs \<inter> fst ` set (set_prop errs k e) = {}"
        using errs knew named by (auto simp: keys_set_prop)
      from Cons.IH[OF d vo this] Failure kerrs named show ?thesis
        by (simp add: p field_data_Cons field_errors_Cons set_prop_fresh)
    qed
  qed
qed


lemma field_data_keys:
  "fst ` set (field_data rt ov fs) =
     {k. k \<noteq> ''__proto__'' \<and>
         (\<exists>f. (k, f) \<in> set fs \<and> is_success (f (get_prop rt ov k)) \<and>
              data (f (get_prop rt ov k)) \<noteq> JUndefined)}"
  by (force simp: field_data_def image_iff)

lemma field_errors_distinct: "distinct (map fst fs) \<Longrightarrow> distinct (map fst (field_errors rt ov fs))"
proof -
  assume "distinct (map fst fs)"
  then have "distinct (map fst (filter (\<lambda>(k, f). k \<noteq> ''__proto__'' \<and>
      \<not> is_success (f (get_prop rt ov k))) fs))"
    by (rule distinct_map_filter)
  moreover have "map fst (field_errors rt ov fs) =
      map fst (filter (\<lambda>(k, f). k \<noteq> ''__proto__'' \<and> \<not> is_success (f (get_prop rt ov k))) fs)"
    by (simp add: field_errors_def case_prod_unfold comp_def)
  ultimately show ?thesis by simp
qed

lemma field_data_distinct: "distinct (map fst fs) \<Longrightarrow> distinct (map fst (field_data rt ov fs))"
proof -
  assume "distinct (map fst fs)"
  then have "distinct (map fst (filter (\<lambda>(k, f). k \<noteq> ''__proto__'' \<and>
      is_success (f (get_prop rt ov k)) \<and> data (f (get_prop rt ov k)) \<noteq> JUndefined) fs))"
    by (rule distinct_map_filter)
  moreover have "map fst (field_data rt ov fs) =
      map fst (filter (\<lambda>(k, f). k \<noteq> ''__proto__'' \<and>
        is_success (f (get_prop rt ov k)) \<and> data (f (get_prop rt ov k)) \<noteq> JUndefined) fs)"
    by (simp add: field_data_def case_prod_unfold comp_def)
  ultimately show ?thesis by simp
qed

lemma field_errors_lookup:
  assumes "distinct (map fst fs)" and "(k, f) \<in> set fs" and "f (get_prop rt ov k) = Failure e"
    and "k \<noteq> ''__proto__''"
  shows "map_of (field_errors rt ov fs) k = Some e"
proof -
  from assms(2,3,4) have "(k, e) \<in> set (field_errors rt ov fs)"
    by (force simp: field_errors_def)
  then show ?thesis
    by (simp add: field_errors_distinct[OF assms(1)])
qed

lemma field_data_lookup:
  assumes "distinct (map fst fs)" and "(k, f) \<in> set fs" and "f (get_prop rt ov k) = Success d"
    and "d \<noteq> JUndefined" and "k \<noteq> ''__proto__''"
  shows "map_of (field_data rt ov fs) k = Some d"
proof -
  from assms(2,3,4,5) have "(k, d) \<in> set (field_data rt ov fs)"
    by (force simp: field_data_def)
  then show ?thesis
    by (simp add: field_data_distinct[OF assms(1)])
qed

lemma field_errors_empty_iff:
  "field_errors rt ov fs = [] \<longleftrightarrow>
     (\<forall>(k, f)\<in>set fs. k \<noteq> ''__proto__'' \<longrightarrow> is_success (f (get_prop rt ov k)))"
  by (induction fs) (auto simp: field_errors_Cons split: if_splits)


lemma validate_unfold:
  "validate rt this value =
     (if ownValidate this \<and> (value = JNull \<or> value = JUndefined) then Success JUndefined
      else
        (case vclass this of
           ArrayValidator item \<Rightarrow> ArrayValidator_validate rt this (validate rt item) value
         | ObjectValidator sch \<Rightarrow>
             ObjectValidator_validate rt this (map (\<lambda>(key, v). (key, validate rt v)) sch) value
         | _ \<Rightarrow> BaseValidator_validate rt this value))"
  by (cases this, hypsubst) (auto simp: validate.simps)

lemma validateType_Success: "validateType rt cls msg value = Success tv \<Longrightarrow>
   tv = value \<or> (\<exists>s t. cls = DateValidator \<and> value = JString s \<and> date_parse rt s = Some t \<and> tv = JDate (Some t))"
  by (auto simp: validateType_def split: validator_class.splits jsval.splits jsnum.splits option.splits)

lemma run_rules_Success: "run_rules rt rs tv = Success d \<Longrightarrow> d = tv"
  by (induction rs) (auto split: rule_result.splits)

lemma run_rules_Success_iff:
  "run_rules rt rs tv = Success tv \<longleftrightarrow> (\<forall>r\<in>set rs. apply_rule rt r tv = RuleSuccess)"
  by (induction rs) (auto split: rule_result.splits)

lemma ArrayValidator_validate_result:
  assumes "BaseValidator_validate rt this value = Success (JArray xs)"
  shows "ArrayValidator_validate rt this f value =
     (if item_errors f 0 xs \<noteq> []
      then Failure (ErrorRecord [(''message'', ErrorMessage ''Array contains invalid items''),
                                 (''errors'', ErrorRecord (item_errors f 0 xs))])
      else Success (JArray (item_data f xs)))"
  using assms by (simp add: ArrayValidator_validate_def js_elements_def validate_items_result)

lemma ObjectValidator_validate_result:
  assumes "BaseValidator_validate rt this value = Success ov" and "distinct (map fst fs)"
  shows "ObjectValidator_validate rt this fs value =
     (if field_errors rt ov fs \<noteq> []
      then Failure (ErrorRecord [(''message'', ErrorMessage ''Object validation failed''),
                                 (''errors'', ErrorRecord (field_errors rt ov fs))])
      else Success (JObject (field_data rt ov fs)))"
  using assms by (simp add: ObjectValidator_validate_def validate_fields_result)

section \<open>Calling validate: which fields it reads\<close>

lemma BaseValidator_validate_fields:
  "vclass a = vclass b \<Longrightarrow> rules a = rules b \<Longrightarrow> baseErrorMessage a = baseErrorMessage b \<Longrightarrow>
   BaseValidator_validate rt a value = BaseValidator_validate rt b value"
  by (simp add: BaseValidator_validate_def split: validation_result.splits)

lemma validate_prototype:
  assumes "\<not> (ownValidate this \<and> (value = JNull \<or> value = JUndefined))"
  shows "validate rt this value =
     (case vclass this of
        ArrayValidator item \<Rightarrow> ArrayValidator_validate rt this (validate rt item) value
      | ObjectValidator sch \<Rightarrow>
          ObjectValidator_validate rt this (map (\<lambda>(key, v). (key, validate rt v)) sch) value
      | _ \<Rightarrow> BaseValidator_validate rt this value)"
  by (subst validate_unfold) (rule if_not_P[OF assms])

lemma validate_own:
  assumes "ownValidate this" and "value = JNull \<or> value = JUndefined"
  shows "validate rt this value = Success JUndefined"
  using assms by (subst validate_unfold) simp

lemma validate_fields_only:
  assumes "vclass a = vclass b" and "rules a = rules b" and "baseErrorMessage a = baseErrorMessage b"
    and "ownValidate a \<and> (value = JNull \<or> value = JUndefined) \<longleftrightarrow>
         ownValidate b \<and> (value = JNull \<or> value = JUndefined)"
  shows "validate rt a value = validate rt b value"
proof -
  have base: "BaseValidator_validate rt a value = BaseValidator_validate rt b value"
    using assms(1-3) by (rule BaseValidator_validate_fields)
  show ?thesis
  proof (cases "ownValidate a \<and> (value = JNull \<or> value = JUndefined)")
    case True
    with assms(4) show ?thesis
      by (simp add: validate_unfold[of rt a] validate_unfold[of rt b])
  next
    case False
    with assms(4) have "\<not> (ownValidate b \<and> (value = JNull \<or> value = JUndefined))"
      by simp
    with False assms(1) base show ?thesis
      by (simp add: validate_prototype[of a] validate_prototype[of b]
          ArrayValidator_validate_def ObjectValidator_validate_def split: validator_class.splits)
  qed
qed

lemma clone_fields [simp]:
  "vclass (clone v) = vclass v" "rules (clone v) = rules v" "isOptional (clone v) = isOptional v"
  "baseErrorMessage (clone v) = baseErrorMessage v" "ownValidate (clone v) = False"
  by (simp_all add: clone_def)

lemma optional_fields [simp]:
  "vclass (optional v) = vclass v" "rules (optional v) = rules v" "isOptional (optional v) = True"
  "baseErrorMessage (optional v) = baseErrorMessage v" "ownValidate (optional v) = True"
  by (simp_all add: optional_def Let_def)

lemma withMessage_fields [simp]:
  "vclass (withMessage v m) = vclass v" "rules (withMessage v m) = rules v"
  "isOptional (withMessage v m) = isOptional v"
  "baseErrorMessage (withMessage v m) = Some m" "ownValidate (withMessage v m) = False"
  by (simp_all add: withMessage_def Let_def)

lemma addRule_fields [simp]:
  "vclass (addRule v r) = vclass v" "rules (addRule v r) = rules v @ [r]"
  "isOptional (addRule v r) = isOptional v"
  "baseErrorMessage (addRule v r) = baseErrorMessage v" "ownValidate (addRule v r) = False"
  by (simp_all add: addRule_def Let_def)

lemma validateType_absent:
  "value = JNull \<or> value = JUndefined \<Longrightarrow>
   \<exists>dflt. validateType rt cls msg value = Failure (ErrorMessage (or_default msg dflt))"
  by (auto simp: validateType_def split: validator_class.splits)

lemma validate_base_Failure:
  assumes "BaseValidator_validate rt this value = Failure e"
    and "\<not> (ownValidate this \<and> (value = JNull \<or> value = JUndefined))"
  shows "validate rt this value = Failure e"
  using assms(1)
  by (simp add: validate_prototype[OF assms(2)] ArrayValidator_validate_def
      ObjectValidator_validate_def split: validator_class.splits)

lemma validate_own_False_absent:
  assumes "value = JNull \<or> value = JUndefined" and "\<not> ownValidate this"
  shows "validate rt this value = validateType rt (vclass this) (baseErrorMessage this) value"
proof -
  from validateType_absent[OF assms(1)] obtain dflt where
    f: "validateType rt (vclass this) (baseErrorMessage this) value =
       Failure (ErrorMessage (or_default (baseErrorMessage this) dflt))" by blast
  then have "BaseValidator_validate rt this value =
       Failure (ErrorMessage (or_default (baseErrorMessage this) dflt))"
    by (simp add: BaseValidator_validate_def)
  from validate_base_Failure[OF this] assms(2) f show ?thesis
    by simp
qed

text \<open>The definitions a closed example unfolds.\<close>

lemmas example_defs =
  Schema_string_def Schema_number_def Schema_boolean_def Schema_date_def Schema_array_def
  Schema_object_def new_validator_def
  StringValidator_minLength_def StringValidator_maxLength_def NumberValidator_min_def
  NumberValidator_max_def DateValidator_min_def DateValidator_max_def
  addRule_def clone_def optional_def withMessage_def
  validate.simps ArrayValidator_validate_def ObjectValidator_validate_def set_prop_def
  BaseValidator_validate_def validateType_def apply_rule_def js_elements_def js_gt_def
  js_length_def or_default_def
  example_runtime_def example_number_toString_def int_toString_def index_key.simps
  digit_char_def

section \<open>The container validators, in closed form\<close>

lemma BaseValidator_validate_present:
  assumes "BaseValidator_validate rt this value = Success tv"
  shows "\<not> (value = JNull \<or> value = JUndefined)"
proof
  assume "value = JNull \<or> value = JUndefined"
  from validateType_absent[OF this, of rt "vclass this" "baseErrorMessage this"]
  show False using assms by (auto simp: BaseValidator_validate_def)
qed

lemma validate_ArrayValidator:
  assumes "vclass this = ArrayValidator item"
    and "BaseValidator_validate rt this value = Success (JArray xs)"
  shows "validate rt this value =
     (if item_errors (validate rt item) 0 xs \<noteq> []
      then Failure (ErrorRecord [(''message'', ErrorMessage ''Array contains invalid items''),
                                 (''errors'', ErrorRecord (item_errors (validate rt item) 0 xs))])
      else Success (JArray (item_data (validate rt item) xs)))"
proof -
  have "\<not> (ownValidate this \<and> (value = JNull \<or> value = JUndefined))"
    using BaseValidator_validate_present[OF assms(2)] by simp
  from validate_prototype[OF this, of rt] assms(1)
  have "validate rt this value = ArrayValidator_validate rt this (validate rt item) value"
    by simp
  then show ?thesis
    by (simp only: ArrayValidator_validate_result[OF assms(2)])
qed

lemma schema_validators_keys [simp]: "map fst (schema_validators rt sch) = map fst sch"
  by (simp add: schema_validators_def case_prod_unfold comp_def)

lemma schema_validators_mem:
  "(k, f) \<in> set (schema_validators rt sch) \<longleftrightarrow> (\<exists>v. (k, v) \<in> set sch \<and> f = validate rt v)"
  by (force simp: schema_validators_def)

lemma validate_ObjectValidator:
  assumes "vclass this = ObjectValidator sch" and "distinct (map fst sch)"
    and "BaseValidator_validate rt this value = Success ov"
  shows "validate rt this value =
     (if field_errors rt ov (schema_validators rt sch) \<noteq> []
      then Failure (ErrorRecord [(''message'', ErrorMessage ''Object validation failed''),
                                 (''errors'', ErrorRecord (field_errors rt ov (schema_validators rt sch)))])
      else Success (JObject (field_data rt ov (schema_validators rt sch))))"
proof -
  have "\<not> (ownValidate this \<and> (value = JNull \<or> value = JUndefined))"
    using BaseValidator_validate_present[OF assms(3)] by simp
  from validate_prototype[OF this, of rt] assms(1)
  have "validate rt this value =
      ObjectValidator_validate rt this (schema_validators rt sch) value"
    by (simp add: schema_validators_def)
  moreover have "distinct (map fst (schema_validators rt sch))"
    using assms(2) by simp
  ultimately show ?thesis
    by (simp only: ObjectValidator_validate_result[OF assms(3)])
qed



lemma schema_field_errors_lookup:
  assumes "distinct (map fst sch)" and "(k, v) \<in> set sch"
    and "validate rt v (get_prop rt ov k) = Failure e" and "k \<noteq> ''__proto__''"
  shows "map_of (field_errors rt ov (schema_validators rt sch)) k = Some e"
proof (rule field_errors_lookup)
  show "distinct (map fst (schema_validators rt sch))" using assms(1) by simp
  show "(k, validate rt v) \<in> set (schema_validators rt sch)"
    using assms(2) by (auto simp: schema_validators_mem)
  show "validate rt v (get_prop rt ov k) = Failure e" by (rule assms(3))
  show "k \<noteq> ''__proto__''" by (rule assms(4))
qed



lemmas prototype_defs = example_object_prototype_def object_prototype_methods_def
  example_date_prototype_def date_prototype_methods_def

section \<open>C1: the error of a container validator\<close>




section \<open>C2: an inverted date range\<close>

lemma replicate_small:
  "replicate 2 c = [c, c]" "replicate 3 c = [c, c, c]"
  by (simp_all add: numeral_2_eq_2 numeral_3_eq_3)

lemma iso_2025: "example_toISOString 1735689600000 = ''2025-01-01T00:00:00.000Z''"
  unfolding example_toISOString_def Let_def
  by (simp add: pad_def index_key.simps digit_char_def replicate_small)

text \<open>
  Claim C2 says that a minimum date after the maximum date fails when the second bound
  is configured. \<^verbatim>\<open>DateValidator.min\<close> and \<^verbatim>\<open>DateValidator.max\<close> only add a rule:
  with the dates of \<^verbatim>\<open>tests/date-validator.test.ts\<close>, 2025-01-01 as minimum and
  2024-01-01 as maximum, the call returns a validator holding both rules, and the range
  shows only at validation, where 2024-06-01 is refused by the first rule.
\<close>

theorem DateValidator_inverted_range_accepted:
  "DateValidator_max (DateValidator_min Schema_date (Some 1735689600000) None)
       (Some 1704067200000) None
     = Validator DateValidator
         [DateMin (Some 1735689600000) None, DateMax (Some 1704067200000) None] False None False \<and>
   validate example_runtime
     (DateValidator_max (DateValidator_min Schema_date (Some 1735689600000) None)
        (Some 1704067200000) None)
     (JDate (Some 1717200000000))
     = Failure (ErrorMessage ''Date must be on or after 2025-01-01T00:00:00.000Z'')"
  by (simp add: example_defs iso_2025)

text \<open>
  The same holds of every inverted range: the configuration returns a validator, and no
  valid date passes it.
\<close>

lemma DateValidator_inverted_range_rejects:
  assumes "hi < lo"
  shows "\<not> is_success (validate rt
     (DateValidator_max (DateValidator_min Schema_date (Some lo) m1) (Some hi) m2)
     (JDate (Some t)))"
proof -
  let ?V = "DateValidator_max (DateValidator_min Schema_date (Some lo) m1) (Some hi) m2"
  have "\<not> (ownValidate ?V \<and> (JDate (Some t) = JNull \<or> JDate (Some t) = JUndefined))"
    by simp
  from validate_prototype[OF this, of rt]
  have "validate rt ?V (JDate (Some t)) = BaseValidator_validate rt ?V (JDate (Some t))"
    by (simp add: DateValidator_max_def DateValidator_min_def Schema_date_def new_validator_def)
  then show ?thesis
    using assms
    by (simp add: BaseValidator_validate_def validateType_def apply_rule_def
        DateValidator_max_def DateValidator_min_def Schema_date_def new_validator_def)
qed

section \<open>C3: the two phases of BaseValidator.validate\<close>

lemma run_rules_first_failure:
  "n < length rs \<Longrightarrow> \<forall>k<n. apply_rule rt (rs ! k) tv = RuleSuccess \<Longrightarrow>
   apply_rule rt (rs ! n) tv = RuleFailure e \<Longrightarrow>
   run_rules rt rs tv = Failure (ErrorMessage e)"
proof (induction rs arbitrary: n)
  case Nil
  then show ?case by simp
next
  case (Cons r rs)
  show ?case
  proof (cases n)
    case 0
    with Cons.prems show ?thesis by simp
  next
    case (Suc m)
    have first: "apply_rule rt r tv = RuleSuccess"
      using Cons.prems(2) Suc by force
    have "run_rules rt rs tv = Failure (ErrorMessage e)"
    proof (rule Cons.IH)
      show "m < length rs" using Cons.prems(1) Suc by simp
      show "\<forall>k<m. apply_rule rt (rs ! k) tv = RuleSuccess"
        using Cons.prems(2) Suc by force
      show "apply_rule rt (rs ! m) tv = RuleFailure e"
        using Cons.prems(3) Suc by simp
    qed
    with first show ?thesis by simp
  qed
qed

text \<open>
  Claim C3 says that \<^verbatim>\<open>validate\<close> of every validator runs the type check first and
  returns its failure. A validator made by \<^verbatim>\<open>optional()\<close> does not: on \<^verbatim>\<open>null\<close> the
  type check of \<^verbatim>\<open>string().optional()\<close> fails, and \<^verbatim>\<open>validate\<close> returns success.
\<close>

theorem optional_skips_type_check:
  "validateType example_runtime (vclass (optional Schema_string))
     (baseErrorMessage (optional Schema_string)) JNull
     = Failure (ErrorMessage ''Value must be a string'') \<and>
   validate example_runtime (optional Schema_string) JNull = Success JUndefined"
  by (simp add: example_defs)

text \<open>
  Claim C3, amended. For every validator and every input, \<^verbatim>\<open>BaseValidator.validate\<close>
  returns the failure of the type check when it fails; otherwise it returns the error of
  the first rule, in the order of \<^verbatim>\<open>rules\<close>, that fails on the typed value, whatever
  the later rules are, and success with the typed value when every rule passes. Unless the
  input is absent and the validator carries the own \<^verbatim>\<open>validate\<close> of \<^verbatim>\<open>optional()\<close>,
  \<^verbatim>\<open>validate\<close> of a string, number, boolean or date validator is this method, and
  \<^verbatim>\<open>validate\<close> of any validator (an array or object validator too) returns its failure
  unchanged. Every outcome is a result value.
\<close>

theorem BaseValidator_validate_two_phases:
  "(\<forall>e. validateType rt (vclass this) (baseErrorMessage this) value = Failure e \<longrightarrow>
        BaseValidator_validate rt this value = Failure e) \<and>
   (\<forall>typedValue. validateType rt (vclass this) (baseErrorMessage this) value = Success typedValue \<longrightarrow>
      (\<forall>n e. n < length (rules this) \<longrightarrow>
             (\<forall>k<n. apply_rule rt (rules this ! k) typedValue = RuleSuccess) \<longrightarrow>
             apply_rule rt (rules this ! n) typedValue = RuleFailure e \<longrightarrow>
             BaseValidator_validate rt this value = Failure (ErrorMessage e)) \<and>
      ((\<forall>r\<in>set (rules this). apply_rule rt r typedValue = RuleSuccess) \<longrightarrow>
             BaseValidator_validate rt this value = Success typedValue)) \<and>
   (\<not> (ownValidate this \<and> (value = JNull \<or> value = JUndefined)) \<longrightarrow>
      (vclass this \<in> {StringValidator, NumberValidator, BooleanValidator, DateValidator} \<longrightarrow>
         validate rt this value = BaseValidator_validate rt this value) \<and>
      (\<forall>e. BaseValidator_validate rt this value = Failure e \<longrightarrow>
         validate rt this value = Failure e))"
proof (intro conjI allI impI)
  fix e assume "validateType rt (vclass this) (baseErrorMessage this) value = Failure e"
  then show "BaseValidator_validate rt this value = Failure e"
    by (simp add: BaseValidator_validate_def)
next
  fix typedValue n e
  assume "validateType rt (vclass this) (baseErrorMessage this) value = Success typedValue"
    and "n < length (rules this)"
    and "\<forall>k<n. apply_rule rt (rules this ! k) typedValue = RuleSuccess"
    and "apply_rule rt (rules this ! n) typedValue = RuleFailure e"
  then show "BaseValidator_validate rt this value = Failure (ErrorMessage e)"
    by (simp add: BaseValidator_validate_def run_rules_first_failure)
next
  fix typedValue
  assume "validateType rt (vclass this) (baseErrorMessage this) value = Success typedValue"
    and "\<forall>r\<in>set (rules this). apply_rule rt r typedValue = RuleSuccess"
  then show "BaseValidator_validate rt this value = Success typedValue"
    by (simp add: BaseValidator_validate_def run_rules_Success_iff)
next
  assume present: "\<not> (ownValidate this \<and> (value = JNull \<or> value = JUndefined))"
    and "vclass this \<in> {StringValidator, NumberValidator, BooleanValidator, DateValidator}"
  then show "validate rt this value = BaseValidator_validate rt this value"
    by (auto simp: validate_prototype[OF present])
next
  fix e
  assume "\<not> (ownValidate this \<and> (value = JNull \<or> value = JUndefined))"
    and "BaseValidator_validate rt this value = Failure e"
  then show "validate rt this value = Failure e"
    by (simp add: validate_base_Failure)
qed

text \<open>
  At \<^verbatim>\<open>string().minLength(3).maxLength(5)\<close>: \<^verbatim>\<open>"ab"\<close> fails on the first rule, a
  number fails the type check, \<^verbatim>\<open>"abcd"\<close> passes.
\<close>

theorem BaseValidator_validate_two_phases_witness:
  "validate example_runtime
     (StringValidator_maxLength (StringValidator_minLength Schema_string (Finite 3) None) (Finite 5) None)
     (JString ''ab'')
   = Failure (ErrorMessage ''String must be at least 3 characters long'') \<and>
   validate example_runtime
     (StringValidator_maxLength (StringValidator_minLength Schema_string (Finite 3) None) (Finite 5) None)
     (JNumber (Finite 42))
   = Failure (ErrorMessage ''Value must be a string'') \<and>
   validate example_runtime
     (StringValidator_maxLength (StringValidator_minLength Schema_string (Finite 3) None) (Finite 5) None)
     (JString ''abcd'')
   = Success (JString ''abcd'')"
proof -
  let ?v = "StringValidator_maxLength (StringValidator_minLength Schema_string (Finite 3) None) (Finite 5) None"
  note type_fails = BaseValidator_validate_two_phases[THEN conjunct1, rule_format]
  note typed = BaseValidator_validate_two_phases[THEN conjunct2, THEN conjunct1, rule_format]
  note rule_fails = typed[THEN conjunct1, rule_format]
  note rules_pass = typed[THEN conjunct2, rule_format]
  note present = BaseValidator_validate_two_phases[THEN conjunct2, THEN conjunct2, rule_format]
  note leaf = present[THEN conjunct1, rule_format]
  have cls: "vclass ?v = StringValidator" and msg: "baseErrorMessage ?v = None"
    and own: "\<not> ownValidate ?v"
    and rs: "rules ?v = [StringMinLength (Finite 3) None, StringMaxLength (Finite 5) None]"
    by (simp_all add: example_defs)
  have is_leaf: "vclass ?v \<in> {StringValidator, NumberValidator, BooleanValidator, DateValidator}"
    by (simp add: cls)
  have t1: "validateType example_runtime (vclass ?v) (baseErrorMessage ?v) (JString ''ab'')
              = Success (JString ''ab'')"
    and t2: "validateType example_runtime (vclass ?v) (baseErrorMessage ?v) (JNumber (Finite 42))
               = Failure (ErrorMessage ''Value must be a string'')"
    and t3: "validateType example_runtime (vclass ?v) (baseErrorMessage ?v) (JString ''abcd'')
               = Success (JString ''abcd'')"
    by (simp_all add: cls msg validateType_def or_default_def)
  have r1: "apply_rule example_runtime (rules ?v ! 0) (JString ''ab'')
              = RuleFailure ''String must be at least 3 characters long''"
    by (simp add: rs example_defs)
  have r3: "\<forall>r\<in>set (rules ?v). apply_rule example_runtime r (JString ''abcd'') = RuleSuccess"
    by (simp add: rs example_defs)
  have b1: "BaseValidator_validate example_runtime ?v (JString ''ab'')
          = Failure (ErrorMessage ''String must be at least 3 characters long'')"
    by (rule rule_fails[OF t1 _ _ r1]) (simp_all add: rs)
  have b2: "BaseValidator_validate example_runtime ?v (JNumber (Finite 42))
          = Failure (ErrorMessage ''Value must be a string'')"
    by (rule type_fails[OF t2])
  have b3: "BaseValidator_validate example_runtime ?v (JString ''abcd'') = Success (JString ''abcd'')"
    using r3 by (intro rules_pass[OF t3]) simp
  have v1: "validate example_runtime ?v (JString ''ab'')
          = BaseValidator_validate example_runtime ?v (JString ''ab'')"
    by (rule leaf[OF _ is_leaf]) (simp add: own)
  have v2: "validate example_runtime ?v (JNumber (Finite 42))
          = BaseValidator_validate example_runtime ?v (JNumber (Finite 42))"
    by (rule leaf[OF _ is_leaf]) (simp add: own)
  have v3: "validate example_runtime ?v (JString ''abcd'')
          = BaseValidator_validate example_runtime ?v (JString ''abcd'')"
    by (rule leaf[OF _ is_leaf]) (simp add: own)
  show ?thesis
    by (simp only: v1 v2 v3 b1 b2 b3)
qed

section \<open>C4: a configuration method leaves its receiver alone\<close>

lemma wf_store_empty: "wf_store empty_store"
  by (simp add: wf_store_def empty_store_def)

lemma wf_store_object:
  "wf_store st \<Longrightarrow> objects st r = Some ob \<Longrightarrow>
   r < next_ref st \<and> obj_rules ob < next_ref st \<and> (\<exists>rs. arrays st (obj_rules ob) = Some rs)"
  unfolding wf_store_def by (metis not_Some_eq)

lemma wf_store_array: "wf_store st \<Longrightarrow> arrays st a = Some rs \<Longrightarrow> a < next_ref st"
  unfolding wf_store_def by blast

lemma wf_store_fresh:
  "wf_store st \<Longrightarrow> next_ref st \<le> r \<Longrightarrow> objects st r = None \<and> arrays st r = None"
  unfolding wf_store_def by (metis not_Some_eq not_le)

lemma construct_new:
  "construct st cls None =
     Some (st\<lparr>arrays := (arrays st)(next_ref st \<mapsto> []),
              objects := (objects st)(Suc (next_ref st) \<mapsto>
                 \<lparr>obj_class = cls, obj_rules = next_ref st, obj_isOptional = False,
                  obj_baseErrorMessage = None, obj_ownValidate = False\<rparr>),
              next_ref := Suc (Suc (next_ref st))\<rparr>,
           Suc (next_ref st))"
  by (simp add: construct_def new_array_def Let_def)

lemma construct_copy:
  assumes "wf_store st" and "objects st orig = Some ob" and "arrays st (obj_rules ob) = Some rs"
  shows "construct st cls (Some orig) =
     Some (st\<lparr>arrays := (arrays st)(next_ref st \<mapsto> [], Suc (Suc (next_ref st)) \<mapsto> rs),
              objects := (objects st)(Suc (next_ref st) \<mapsto>
                 \<lparr>obj_class = cls, obj_rules = Suc (Suc (next_ref st)),
                  obj_isOptional = obj_isOptional ob,
                  obj_baseErrorMessage = obj_baseErrorMessage ob, obj_ownValidate = False\<rparr>),
              next_ref := Suc (Suc (Suc (next_ref st)))\<rparr>,
           Suc (next_ref st))"
proof -
  from wf_store_object[OF assms(1,2)] have "orig < next_ref st" "obj_rules ob < next_ref st"
    by simp_all
  then show ?thesis
    using assms(2,3) by (simp add: construct_def new_array_def Let_def)
qed

lemma store_clone_result:
  assumes "wf_store st" and "objects st this = Some ob" and "arrays st (obj_rules ob) = Some rs"
  shows "store_clone st this =
     Some (st\<lparr>arrays := (arrays st)(next_ref st \<mapsto> [], Suc (Suc (next_ref st)) \<mapsto> rs),
              objects := (objects st)(Suc (next_ref st) \<mapsto>
                 \<lparr>obj_class = obj_class ob, obj_rules = Suc (Suc (next_ref st)),
                  obj_isOptional = obj_isOptional ob,
                  obj_baseErrorMessage = obj_baseErrorMessage ob, obj_ownValidate = False\<rparr>),
              next_ref := Suc (Suc (Suc (next_ref st)))\<rparr>,
           Suc (next_ref st))"
  using assms by (simp add: store_clone_def construct_copy)

lemma snapshot_SomeD:
  "snapshot st r = Some v \<Longrightarrow>
   \<exists>ob rs. objects st r = Some ob \<and> arrays st (obj_rules ob) = Some rs \<and>
     v = Validator (obj_class ob) rs (obj_isOptional ob) (obj_baseErrorMessage ob) (obj_ownValidate ob)"
  by (auto simp: snapshot_def split: option.splits)

lemma snapshot_frame:
  assumes "\<forall>r ob. objects st r = Some ob \<longrightarrow> objects st' r = Some ob"
    and "\<forall>a rs. arrays st a = Some rs \<longrightarrow> arrays st' a = Some rs"
    and "snapshot st r = Some v"
  shows "snapshot st' r = Some v"
proof -
  from snapshot_SomeD[OF assms(3)] obtain ob rs where
    "objects st r = Some ob" "arrays st (obj_rules ob) = Some rs"
    "v = Validator (obj_class ob) rs (obj_isOptional ob) (obj_baseErrorMessage ob) (obj_ownValidate ob)"
    by blast
  with assms(1,2) show ?thesis
    by (simp add: snapshot_def)
qed

lemma store_configure_result:
  assumes wf: "wf_store st" and ob: "objects st this = Some ob"
    and rs: "arrays st (obj_rules ob) = Some rs"
  shows "store_configure st this c =
     Some (st\<lparr>arrays := (arrays st)(next_ref st \<mapsto> [],
                  Suc (Suc (next_ref st)) \<mapsto> (case c of AddRule r \<Rightarrow> rs @ [r] | _ \<Rightarrow> rs)),
              objects := (objects st)(Suc (next_ref st) \<mapsto>
                 \<lparr>obj_class = obj_class ob, obj_rules = Suc (Suc (next_ref st)),
                  obj_isOptional = (case c of Optional \<Rightarrow> True | _ \<Rightarrow> obj_isOptional ob),
                  obj_baseErrorMessage =
                    (case c of WithMessage m \<Rightarrow> Some m | _ \<Rightarrow> obj_baseErrorMessage ob),
                  obj_ownValidate = (case c of Optional \<Rightarrow> True | _ \<Rightarrow> False)\<rparr>),
              next_ref := Suc (Suc (Suc (next_ref st)))\<rparr>,
           Suc (next_ref st))"
  by (cases c)
    (simp_all add: store_configure_def store_addRule_def store_optional_def
      store_withMessage_def store_clone_result[OF wf ob rs])

lemma configure_Validator:
  "configure (Validator cls rs opt msg own) c =
     Validator cls (case c of AddRule r \<Rightarrow> rs @ [r] | _ \<Rightarrow> rs)
       (case c of Optional \<Rightarrow> True | _ \<Rightarrow> opt)
       (case c of WithMessage m \<Rightarrow> Some m | _ \<Rightarrow> msg)
       (case c of Optional \<Rightarrow> True | _ \<Rightarrow> False)"
  by (cases c) (simp_all add: configure_def addRule_def optional_def withMessage_def clone_def)

lemma construct_new_snapshot:
  assumes "wf_store st"
  shows "\<exists>st' new. construct st cls None = Some (st', new) \<and> wf_store st' \<and>
     snapshot st' new = Some (new_validator cls)"
proof -
  let ?n = "next_ref st"
  let ?st' = "st\<lparr>arrays := (arrays st)(?n \<mapsto> []),
              objects := (objects st)(Suc ?n \<mapsto>
                 \<lparr>obj_class = cls, obj_rules = ?n, obj_isOptional = False,
                  obj_baseErrorMessage = None, obj_ownValidate = False\<rparr>),
              next_ref := Suc (Suc ?n)\<rparr>"
  have "wf_store ?st'"
    unfolding wf_store_def
  proof (intro conjI allI impI)
    fix r ob' assume a: "objects ?st' r = Some ob'"
    show "r < next_ref ?st'"
      using a wf_store_object[OF assms, of r ob'] by (auto split: if_splits)
    show "arrays ?st' (obj_rules ob') \<noteq> None"
      using a wf_store_object[OF assms, of r ob'] by (auto split: if_splits)
  next
    fix a rs' assume "arrays ?st' a = Some rs'"
    then show "a < next_ref ?st'"
      using wf_store_array[OF assms, of a rs'] by (auto split: if_splits)
  qed
  moreover have "snapshot ?st' (Suc ?n) = Some (new_validator cls)"
    by (simp add: snapshot_def new_validator_def)
  ultimately show ?thesis
    by (simp add: construct_new)
qed

text \<open>
  Claim C4. In a well-formed store, every configuration method called on a validator
  object (\<^verbatim>\<open>minLength\<close>, \<^verbatim>\<open>maxLength\<close>, \<^verbatim>\<open>pattern\<close>, \<^verbatim>\<open>min\<close>, \<^verbatim>\<open>max\<close> through
  \<^verbatim>\<open>addRule\<close>, and \<^verbatim>\<open>optional\<close>, \<^verbatim>\<open>withMessage\<close>) returns a reference that was not
  in use, different from the receiver; every object and every array that was in the store
  is unchanged, so the receiver stands for the same validator as before, with the same
  rules and configuration; and the new object stands for the configured validator.
\<close>

theorem configuration_leaves_receiver_unchanged:
  assumes "wf_store st" and "snapshot st this = Some v"
  shows "\<exists>st' new. store_configure st this c = Some (st', new) \<and>
      objects st new = None \<and> new \<noteq> this \<and>
      (\<forall>r ob. objects st r = Some ob \<longrightarrow> objects st' r = Some ob) \<and>
      (\<forall>a rs. arrays st a = Some rs \<longrightarrow> arrays st' a = Some rs) \<and>
      snapshot st' this = Some v \<and>
      snapshot st' new = Some (configure v c) \<and>
      wf_store st'"
proof -
  from snapshot_SomeD[OF assms(2)] obtain ob rs where
    ob: "objects st this = Some ob" and rs: "arrays st (obj_rules ob) = Some rs"
    and v: "v = Validator (obj_class ob) rs (obj_isOptional ob) (obj_baseErrorMessage ob)
                  (obj_ownValidate ob)"
    by blast
  let ?n = "next_ref st"
  let ?new_rules = "case c of AddRule r \<Rightarrow> rs @ [r] | _ \<Rightarrow> rs"
  let ?new_object = "\<lparr>obj_class = obj_class ob, obj_rules = Suc (Suc ?n),
      obj_isOptional = (case c of Optional \<Rightarrow> True | _ \<Rightarrow> obj_isOptional ob),
      obj_baseErrorMessage = (case c of WithMessage m \<Rightarrow> Some m | _ \<Rightarrow> obj_baseErrorMessage ob),
      obj_ownValidate = (case c of Optional \<Rightarrow> True | _ \<Rightarrow> False)\<rparr>"
  let ?st' = "st\<lparr>arrays := (arrays st)(?n \<mapsto> [], Suc (Suc ?n) \<mapsto> ?new_rules),
                  objects := (objects st)(Suc ?n \<mapsto> ?new_object),
                  next_ref := Suc (Suc (Suc ?n))\<rparr>"
  have res: "store_configure st this c = Some (?st', Suc ?n)"
    by (rule store_configure_result[OF assms(1) ob rs])
  have fresh: "objects st (Suc ?n) = None" "arrays st ?n = None" "arrays st (Suc (Suc ?n)) = None"
    using wf_store_fresh[OF assms(1)] by simp_all
  have this_lt: "this < ?n"
    using wf_store_object[OF assms(1) ob] by simp
  have objs: "\<forall>r ob. objects st r = Some ob \<longrightarrow> objects ?st' r = Some ob"
    using fresh by auto
  have arrs: "\<forall>a rs. arrays st a = Some rs \<longrightarrow> arrays ?st' a = Some rs"
    using fresh by auto
  have old: "snapshot ?st' this = Some v"
    by (rule snapshot_frame[OF objs arrs assms(2)])
  have new: "snapshot ?st' (Suc ?n) = Some (configure v c)"
    by (simp add: snapshot_def v configure_Validator)
  have wf': "wf_store ?st'"
    unfolding wf_store_def
  proof (intro conjI allI impI)
    fix r ob' assume a: "objects ?st' r = Some ob'"
    show "r < next_ref ?st'"
      using a wf_store_object[OF assms(1), of r ob'] by (auto split: if_splits)
    show "arrays ?st' (obj_rules ob') \<noteq> None"
      using a wf_store_object[OF assms(1), of r ob'] by (auto split: if_splits)
  next
    fix a rs' assume "arrays ?st' a = Some rs'"
    then show "a < next_ref ?st'"
      using wf_store_array[OF assms(1), of a rs'] by (auto split: if_splits)
  qed
  from res fresh(1) this_lt objs arrs old new wf' show ?thesis
    by (intro exI[of _ ?st'] exI[of _ "Suc ?n"]) (simp del: fun_upd_apply)
qed

text \<open>
  With \<^verbatim>\<open>v1 = string().minLength(3)\<close> and \<^verbatim>\<open>v2 = v1.maxLength(5)\<close>, starting
  from the empty store: after the second call \<^verbatim>\<open>v1\<close> still has the one rule, and
  \<^verbatim>\<open>"ab"\<close> fails on it.
\<close>

theorem configuration_leaves_receiver_unchanged_witness:
  "\<exists>st1 s st2 v1 st3 v2.
     construct empty_store StringValidator None = Some (st1, s) \<and>
     store_configure st1 s (AddRule (StringMinLength (Finite 3) None)) = Some (st2, v1) \<and>
     store_configure st2 v1 (AddRule (StringMaxLength (Finite 5) None)) = Some (st3, v2) \<and>
     v2 \<noteq> v1 \<and>
     snapshot st2 v1 = Some (StringValidator_minLength Schema_string (Finite 3) None) \<and>
     snapshot st3 v1 = Some (StringValidator_minLength Schema_string (Finite 3) None) \<and>
     rules (StringValidator_minLength Schema_string (Finite 3) None)
       = [StringMinLength (Finite 3) None] \<and>
     snapshot st3 v2 = Some (StringValidator_maxLength
         (StringValidator_minLength Schema_string (Finite 3) None) (Finite 5) None) \<and>
     validate example_runtime (StringValidator_minLength Schema_string (Finite 3) None)
       (JString ''ab'') = Failure (ErrorMessage ''String must be at least 3 characters long'')"
proof -
  from construct_new_snapshot[OF wf_store_empty, of StringValidator] obtain st1 s where
    c1: "construct empty_store StringValidator None = Some (st1, s)" and wf1: "wf_store st1"
    and s1: "snapshot st1 s = Some Schema_string"
    by (auto simp: Schema_string_def)
  from configuration_leaves_receiver_unchanged[OF wf1 s1,
      of "AddRule (StringMinLength (Finite 3) None)"]
  obtain st2 v1 where
    c2: "store_configure st1 s (AddRule (StringMinLength (Finite 3) None)) = Some (st2, v1)"
    and wf2: "wf_store st2"
    and s2: "snapshot st2 v1 = Some (StringValidator_minLength Schema_string (Finite 3) None)"
    by (auto simp: configure_def StringValidator_minLength_def)
  from configuration_leaves_receiver_unchanged[OF wf2 s2,
      of "AddRule (StringMaxLength (Finite 5) None)"]
  obtain st3 v2 where
    c3: "store_configure st2 v1 (AddRule (StringMaxLength (Finite 5) None)) = Some (st3, v2)"
    and ne: "v2 \<noteq> v1"
    and old: "snapshot st3 v1 = Some (StringValidator_minLength Schema_string (Finite 3) None)"
    and new: "snapshot st3 v2 = Some (StringValidator_maxLength
         (StringValidator_minLength Schema_string (Finite 3) None) (Finite 5) None)"
    by (auto simp: configure_def StringValidator_maxLength_def)
  have r: "rules (StringValidator_minLength Schema_string (Finite 3) None)
       = [StringMinLength (Finite 3) None]"
    by (simp add: example_defs)
  have ev: "validate example_runtime (StringValidator_minLength Schema_string (Finite 3) None)
       (JString ''ab'') = Failure (ErrorMessage ''String must be at least 3 characters long'')"
    by (simp add: example_defs)
  from c1 c2 c3 ne s2 old new r ev show ?thesis
    by blast
qed

section \<open>C5: optional()\<close>

text \<open>
  Claim C5. For every validator \<open>V\<close>, of any class and with any rules, the validator
  \<open>optional V\<close> answers \<^verbatim>\<open>undefined\<close> and \<^verbatim>\<open>null\<close> with success and the data
  \<^verbatim>\<open>undefined\<close>, whatever the type check and the rules of \<open>V\<close> would say; on every
  other input it answers what \<open>V\<close> answers.
\<close>

theorem optional_accepts_absent:
  "validate rt (optional V) JUndefined = Success JUndefined \<and>
   validate rt (optional V) JNull = Success JUndefined \<and>
   (value \<noteq> JNull \<longrightarrow> value \<noteq> JUndefined \<longrightarrow>
      validate rt (optional V) value = validate rt V value)"
proof (intro conjI impI)
  show "validate rt (optional V) JUndefined = Success JUndefined"
    by (simp add: validate_unfold[of rt "optional V"])
  show "validate rt (optional V) JNull = Success JUndefined"
    by (simp add: validate_unfold[of rt "optional V"])
next
  assume "value \<noteq> JNull" and "value \<noteq> JUndefined"
  then show "validate rt (optional V) value = validate rt V value"
    by (intro validate_fields_only) simp_all
qed

text \<open>
  At \<^verbatim>\<open>string().minLength(3).optional()\<close>: the present input \<^verbatim>\<open>"ab"\<close> still meets
  the rule, and \<^verbatim>\<open>null\<close> is accepted.
\<close>

theorem optional_accepts_absent_witness:
  "validate example_runtime
     (optional (StringValidator_minLength Schema_string (Finite 3) None)) (JString ''ab'')
   = Failure (ErrorMessage ''String must be at least 3 characters long'') \<and>
   validate example_runtime
     (optional (StringValidator_minLength Schema_string (Finite 3) None)) JNull
   = Success JUndefined"
proof -
  have present: "JString ''ab'' \<noteq> JNull" "JString ''ab'' \<noteq> JUndefined"
    by simp_all
  have direct: "validate example_runtime
      (StringValidator_minLength Schema_string (Finite 3) None) (JString ''ab'')
    = Failure (ErrorMessage ''String must be at least 3 characters long'')"
    by (simp add: example_defs)
  from optional_accepts_absent[of example_runtime
      "StringValidator_minLength Schema_string (Finite 3) None" "JString ''ab''"]
    present direct
  show ?thesis by simp
qed

section \<open>C6: the output of an object validator\<close>

text \<open>
  No method of the library adds a rule to an object validator, so its first phase is the
  type check.
\<close>

lemma ObjectValidator_first_phase:
  "vclass this = ObjectValidator sch \<Longrightarrow> rules this = [] \<Longrightarrow>
   BaseValidator_validate rt this value =
     validateType rt (vclass this) (baseErrorMessage this) value"
  by (auto simp: BaseValidator_validate_def validateType_def split: jsval.splits)




section \<open>C7: every child is validated\<close>

text \<open>
  The two loops do not stop at a failure. When the first phase (type check and rules) of
  an array validator succeeds, every element that fails has its entry in the
  \<^verbatim>\<open>errors\<close> mapping of the failure, under its index, whatever happened to the
  elements before it; when the first phase of an object validator succeeds, every field
  of the schema that fails and is not named \<^verbatim>\<open>__proto__\<close> has its entry under its
  name.
\<close>

lemma every_failing_child_reported:
  "(vclass this = ArrayValidator item \<longrightarrow>
    BaseValidator_validate rt this value = Success (JArray xs) \<longrightarrow>
    j < length xs \<longrightarrow> validate rt item (xs ! j) = Failure e \<longrightarrow>
    (\<exists>errs. validate rt this value =
        Failure (ErrorRecord [(''message'', ErrorMessage ''Array contains invalid items''),
                              (''errors'', ErrorRecord errs)]) \<and>
      map_of errs (index_key j) = Some e)) \<and>
   (vclass this = ObjectValidator sch \<longrightarrow> distinct (map fst sch) \<longrightarrow>
    BaseValidator_validate rt this value = Success ov \<longrightarrow>
    (k, v) \<in> set sch \<longrightarrow> k \<noteq> ''__proto__'' \<longrightarrow>
    validate rt v (get_prop rt ov k) = Failure e' \<longrightarrow>
    (\<exists>errs. validate rt this value =
        Failure (ErrorRecord [(''message'', ErrorMessage ''Object validation failed''),
                              (''errors'', ErrorRecord errs)]) \<and>
      map_of errs k = Some e'))"
proof (intro conjI impI)
  assume cls: "vclass this = ArrayValidator item"
    and base: "BaseValidator_validate rt this value = Success (JArray xs)"
    and j: "j < length xs" and fails: "validate rt item (xs ! j) = Failure e"
  let ?errs = "item_errors (validate rt item) 0 xs"
  have look: "map_of ?errs (index_key j) = Some e"
    using j fails by (rule item_errors_lookup)
  then have "?errs \<noteq> []" by auto
  with validate_ArrayValidator[OF cls base] look
  show "\<exists>errs. validate rt this value =
        Failure (ErrorRecord [(''message'', ErrorMessage ''Array contains invalid items''),
                              (''errors'', ErrorRecord errs)]) \<and>
      map_of errs (index_key j) = Some e"
    by simp
next
  assume cls: "vclass this = ObjectValidator sch" and d: "distinct (map fst sch)"
    and base: "BaseValidator_validate rt this value = Success ov"
    and kv: "(k, v) \<in> set sch" and named: "k \<noteq> ''__proto__''"
    and fails: "validate rt v (get_prop rt ov k) = Failure e'"
  let ?errs = "field_errors rt ov (schema_validators rt sch)"
  have look: "map_of ?errs k = Some e'"
    using d kv fails named by (rule schema_field_errors_lookup)
  then have "?errs \<noteq> []" by auto
  with validate_ObjectValidator[OF cls d base] look
  show "\<exists>errs. validate rt this value =
        Failure (ErrorRecord [(''message'', ErrorMessage ''Object validation failed''),
                              (''errors'', ErrorRecord errs)]) \<and>
      map_of errs k = Some e'"
    by simp
qed

text \<open>
  In \<^verbatim>\<open>[1, -2, 3, -4]\<close> the element at index 3 is reported although index 1 failed
  before it; at \<^verbatim>\<open>object({name: string(), age: number().min(0)})\<close> and
  \<^verbatim>\<open>{name: 7, age: -1}\<close> the field \<^verbatim>\<open>age\<close> is reported, with the error of the rule
  on the value read, although \<^verbatim>\<open>name\<close> failed before it.
\<close>

lemma every_failing_child_reported_example:
  "(\<exists>errs. validate example_runtime
       (Schema_array (NumberValidator_min Schema_number (Finite 0) None))
       (JArray [JNumber (Finite 1), JNumber (Finite (- 2)), JNumber (Finite 3), JNumber (Finite (- 4))])
     = Failure (ErrorRecord [(''message'', ErrorMessage ''Array contains invalid items''),
                             (''errors'', ErrorRecord errs)]) \<and>
     map_of errs ''3'' = Some (ErrorMessage ''Number must be at least 0'')) \<and>
   (\<exists>errs. validate example_runtime
       (Schema_object [(''name'', Schema_string),
                       (''age'', NumberValidator_min Schema_number (Finite 0) None)])
       (JObject [(''name'', JNumber (Finite 7)), (''age'', JNumber (Finite (- 1)))])
     = Failure (ErrorRecord [(''message'', ErrorMessage ''Object validation failed''),
                             (''errors'', ErrorRecord errs)]) \<and>
     map_of errs ''age'' = Some (ErrorMessage ''Number must be at least 0''))"
proof (intro conjI)
  let ?item = "NumberValidator_min Schema_number (Finite 0) None"
  let ?V = "Schema_array ?item"
  let ?xs = "[JNumber (Finite 1), JNumber (Finite (- 2)), JNumber (Finite 3), JNumber (Finite (- 4))]"
  have cls: "vclass ?V = ArrayValidator ?item"
    by (simp add: Schema_array_def new_validator_def)
  have base: "BaseValidator_validate example_runtime ?V (JArray ?xs) = Success (JArray ?xs)"
    by (simp add: example_defs)
  have j: "3 < length ?xs" by simp
  have fails: "validate example_runtime ?item (?xs ! 3) = Failure (ErrorMessage ''Number must be at least 0'')"
    by (simp add: example_defs)
  have key: "index_key 3 = ''3''"
    by (simp add: index_key.simps digit_char_def)
  from every_failing_child_reported[THEN conjunct1, rule_format, OF cls base j fails]
  show "\<exists>errs. validate example_runtime ?V (JArray ?xs)
     = Failure (ErrorRecord [(''message'', ErrorMessage ''Array contains invalid items''),
                             (''errors'', ErrorRecord errs)]) \<and>
     map_of errs ''3'' = Some (ErrorMessage ''Number must be at least 0'')"
    by (simp only: key)
next
  let ?age = "NumberValidator_min Schema_number (Finite 0) None"
  let ?sch = "[(''name'', Schema_string), (''age'', ?age)]"
  let ?V = "Schema_object ?sch"
  let ?ov = "JObject [(''name'', JNumber (Finite 7)), (''age'', JNumber (Finite (- 1)))]"
  have cls: "vclass ?V = ObjectValidator ?sch"
    by (simp add: Schema_object_def new_validator_def)
  have d: "distinct (map fst ?sch)" by simp
  have base: "BaseValidator_validate example_runtime ?V ?ov = Success ?ov"
    by (simp add: example_defs)
  have kv: "(''age'', ?age) \<in> set ?sch" by simp
  have named: "''age'' \<noteq> ''__proto__''" by simp
  have fails: "validate example_runtime ?age (get_prop example_runtime ?ov ''age'')
      = Failure (ErrorMessage ''Number must be at least 0'')"
    by (simp add: example_defs)
  from every_failing_child_reported[THEN conjunct2, rule_format, OF cls d base kv named fails]
  show "\<exists>errs. validate example_runtime ?V ?ov
     = Failure (ErrorRecord [(''message'', ErrorMessage ''Object validation failed''),
                             (''errors'', ErrorRecord errs)]) \<and>
     map_of errs ''age'' = Some (ErrorMessage ''Number must be at least 0'')" .
qed

text \<open>
  Claim C7 says that the failure of an object validator has an entry for every failing
  field. \<^verbatim>\<open>ObjectValidator.validate\<close> records the failure of a field with
  \<^verbatim>\<open>errors[key] = result.error\<close>, and for a field named \<^verbatim>\<open>__proto__\<close> this
  assignment gives \<^verbatim>\<open>errors\<close> no property. With the schema
  \<^verbatim>\<open>{ ['__proto__']: string() }\<close> the input \<^verbatim>\<open>{}\<close>, whose \<^verbatim>\<open>__proto__\<close> is
  \<^verbatim>\<open>Object.prototype\<close>, and the input \<^verbatim>\<open>JSON.parse('{"__proto__": 5}')\<close>, whose
  own property \<^verbatim>\<open>__proto__\<close> is 5, both fail the field and both validate, to
  \<^verbatim>\<open>{}\<close>; with a second field \<^verbatim>\<open>name: string()\<close> and the input
  \<^verbatim>\<open>{ name: 7 }\<close> the failure has the entry of \<^verbatim>\<open>name\<close> and none of
  \<^verbatim>\<open>__proto__\<close>.
\<close>

theorem failure_of_proto_field_is_lost:
  "validate example_runtime Schema_string (get_prop example_runtime (JObject []) ''__proto__'')
     = Failure (ErrorMessage ''Value must be a string'') \<and>
   validate example_runtime (Schema_object [(''__proto__'', Schema_string)]) (JObject [])
     = Success (JObject []) \<and>
   validate example_runtime Schema_string
       (get_prop example_runtime (JObject [(''__proto__'', JNumber (Finite 5))]) ''__proto__'')
     = Failure (ErrorMessage ''Value must be a string'') \<and>
   validate example_runtime (Schema_object [(''__proto__'', Schema_string)])
       (JObject [(''__proto__'', JNumber (Finite 5))])
     = Success (JObject []) \<and>
   validate example_runtime Schema_string
       (get_prop example_runtime (JObject [(''name'', JNumber (Finite 7))]) ''__proto__'')
     = Failure (ErrorMessage ''Value must be a string'') \<and>
   validate example_runtime
       (Schema_object [(''__proto__'', Schema_string), (''name'', Schema_string)])
       (JObject [(''name'', JNumber (Finite 7))])
     = Failure (ErrorRecord
         [(''message'', ErrorMessage ''Object validation failed''),
          (''errors'', ErrorRecord [(''name'', ErrorMessage ''Value must be a string'')])])"
  by (simp add: example_defs prototype_defs)

section \<open>C8: number validators\<close>




section \<open>C9: validating the output again\<close>

text \<open>
  Claim C9 says that the data of a successful validation validates again, to equal data.
  The loop of \<^verbatim>\<open>ObjectValidator.validate\<close> guards the keys of the schema with
  \<^verbatim>\<open>hasOwnProperty\<close> but reads the input with \<^verbatim>\<open>objectValue[key]\<close>, which also
  finds inherited properties. For the schema \<^verbatim>\<open>{ toString: string().optional() }\<close> the
  input \<^verbatim>\<open>{ toString: null }\<close> validates to \<^verbatim>\<open>{}\<close>, and \<^verbatim>\<open>{}\<close> does not
  validate: its \<^verbatim>\<open>toString\<close> is the function of \<^verbatim>\<open>Object.prototype\<close>.
\<close>

theorem revalidation_fails_on_inherited_key:
  "validate example_runtime (Schema_object [(''toString'', optional Schema_string)])
     (JObject [(''toString'', JNull)])
     = Success (JObject []) \<and>
   validate example_runtime (Schema_object [(''toString'', optional Schema_string)])
     (JObject [])
     = Failure (ErrorRecord
         [(''message'', ErrorMessage ''Object validation failed''),
          (''errors'', ErrorRecord [(''toString'', ErrorMessage ''Value must be a string'')])])"
  by (simp add: example_defs example_object_prototype_def object_prototype_methods_def)

text \<open>
  Away from such keys the round trip holds of the validators and inputs modelled here: in
  a validator tree whose object schemas declare each key once, no key that a plain object
  inherits and not the key \<^verbatim>\<open>__proto__\<close>, the data of a successful validation
  validates again, to the same data. The proof is by induction on the tree, with the
  closed forms of the two loops.
\<close>

lemma validateType_idem:
  "validateType rt cls msg x = Success d \<Longrightarrow> validateType rt cls msg d = Success d"
  by (auto simp: validateType_def split: validator_class.splits jsval.splits jsnum.splits option.splits)

lemma BaseValidator_validate_idem:
  assumes "BaseValidator_validate rt this x = Success d"
  shows "BaseValidator_validate rt this d = Success d"
proof -
  from assms obtain tv where tv: "validateType rt (vclass this) (baseErrorMessage this) x = Success tv"
    and rr: "run_rules rt (rules this) tv = Success d"
    by (auto simp: BaseValidator_validate_def split: validation_result.splits)
  from run_rules_Success[OF rr] have "d = tv" .
  with tv rr validateType_idem[OF tv] show ?thesis
    by (simp add: BaseValidator_validate_def)
qed

lemma apply_rule_JArray_length:
  "length ys = length xs \<Longrightarrow> apply_rule rt r (JArray ys) = apply_rule rt r (JArray xs)"
  by (simp add: apply_rule_def js_length_def split: rule.splits)

lemma run_rules_JArray_length:
  "length ys = length xs \<Longrightarrow> run_rules rt rs (JArray xs) = Success (JArray xs) \<Longrightarrow>
   run_rules rt rs (JArray ys) = Success (JArray ys)"
  by (simp add: run_rules_Success_iff apply_rule_JArray_length[of ys xs])

lemma apply_rule_JObject: "apply_rule rt r (JObject props) = RuleSuccess"
  by (simp add: apply_rule_def split: rule.splits)

lemma BaseValidator_validate_ArrayValidator:
  assumes "BaseValidator_validate rt this value = Success tv" and "vclass this = ArrayValidator item"
  shows "\<exists>xs. tv = JArray xs \<and> value = JArray xs \<and>
           run_rules rt (rules this) (JArray xs) = Success (JArray xs)"
  using assms
  by (auto simp: BaseValidator_validate_def validateType_def dest: run_rules_Success
      split: validation_result.splits jsval.splits)

lemma BaseValidator_validate_JArray:
  assumes "vclass this = ArrayValidator item"
    and "run_rules rt (rules this) (JArray ys) = Success (JArray ys)"
  shows "BaseValidator_validate rt this (JArray ys) = Success (JArray ys)"
  using assms by (simp add: BaseValidator_validate_def validateType_def)

lemma BaseValidator_validate_JObject:
  assumes "vclass this = ObjectValidator sch"
  shows "BaseValidator_validate rt this (JObject out) = Success (JObject out)"
  using assms
  by (simp add: BaseValidator_validate_def validateType_def run_rules_Success_iff apply_rule_JObject)

lemma item_results_stable:
  assumes "\<forall>y\<in>set ys. f y = Success y"
  shows "item_errors f i ys = [] \<and> item_data f ys = ys"
  using assms by (induction ys arbitrary: i) (simp_all add: item_errors_Cons item_data_Cons)

lemma field_results_stable:
  assumes "\<forall>(k, f)\<in>set fs. is_success (f (get_prop rt ov k)) \<and>
              f (get_prop rt ov' k) = Success (data (f (get_prop rt ov k)))"
  shows "field_errors rt ov' fs = [] \<and> field_data rt ov' fs = field_data rt ov fs"
  using assms
  by (induction fs) (auto simp: field_errors_Cons field_data_Cons)

lemma get_prop_field_data:
  assumes "distinct (map fst fs)" and "(k, f) \<in> set fs" and "is_success (f (get_prop rt ov k))"
    and "k \<noteq> ''__proto__''"
  shows "get_prop rt (JObject (field_data rt ov fs)) k =
     (if data (f (get_prop rt ov k)) \<noteq> JUndefined then data (f (get_prop rt ov k))
      else object_prototype rt k)"
proof (cases "data (f (get_prop rt ov k)) \<noteq> JUndefined")
  case True
  from assms(3) have "f (get_prop rt ov k) = Success (data (f (get_prop rt ov k)))" by simp
  from field_data_lookup[OF assms(1,2) this True assms(4)] True show ?thesis by simp
next
  case False
  have "f' = f" if "(k, f') \<in> set fs" for f'
    using that assms(1,2) by (meson eq_key_imp_eq_value)
  with False have "k \<notin> fst ` set (field_data rt ov fs)"
    by (auto simp: field_data_keys)
  then have "map_of (field_data rt ov fs) k = None"
    by (simp add: map_of_eq_None_iff)
  with False show ?thesis by simp
qed

theorem revalidation_stable:
  "own_keys_only rt V \<Longrightarrow> validate rt V x = Success d \<Longrightarrow> validate rt V d = Success d"
proof (induction rt V x arbitrary: d rule: validate.induct)
  case (1 rt cls rs opt msg own "value")
  let ?V = "Validator cls rs opt msg own"
  show ?case
  proof (cases "own \<and> (value = JNull \<or> value = JUndefined)")
    case True
    then have "validate rt ?V value = Success JUndefined"
      by (simp add: validate_own)
    with "1.prems"(2) have "d = JUndefined" by simp
    with True show ?thesis by (simp add: validate_own)
  next
    case False
    have not_intercepted: "\<not> (ownValidate ?V \<and> (value = JNull \<or> value = JUndefined))"
      using False by simp
    note first = validate_prototype[OF not_intercepted, of rt]
    have again: "validate rt ?V d = Success d"
      if base': "BaseValidator_validate rt ?V d = Success tv"
        and proto': "\<not> (ownValidate ?V \<and> (d = JNull \<or> d = JUndefined)) \<Longrightarrow>
          (case vclass ?V of
             ArrayValidator item \<Rightarrow> ArrayValidator_validate rt ?V (validate rt item) d
           | ObjectValidator sch \<Rightarrow>
               ObjectValidator_validate rt ?V (map (\<lambda>(key, v). (key, validate rt v)) sch) d
           | _ \<Rightarrow> BaseValidator_validate rt ?V d) = Success d"
      for tv
    proof -
      have present: "\<not> (ownValidate ?V \<and> (d = JNull \<or> d = JUndefined))"
        using BaseValidator_validate_present[OF base'] by simp
      from validate_prototype[OF present, of rt] proto'[OF present] show ?thesis by simp
    qed
    show ?thesis
    proof (cases cls)
      case (ArrayValidator item)
      have cls: "vclass ?V = ArrayValidator item" by (simp add: ArrayValidator)
      from first "1.prems"(2) ArrayValidator
      have av: "ArrayValidator_validate rt ?V (validate rt item) value = Success d" by simp
      then obtain tv where base: "BaseValidator_validate rt ?V value = Success tv"
        by (auto simp: ArrayValidator_validate_def split: validation_result.splits)
      from BaseValidator_validate_ArrayValidator[OF base cls] obtain xs where
        tv: "tv = JArray xs" and rr: "run_rules rt (rules ?V) (JArray xs) = Success (JArray xs)"
        by blast
      from av ArrayValidator_validate_result[OF base[unfolded tv], of "validate rt item"]
      have ok: "item_errors (validate rt item) 0 xs = []"
        and d: "d = JArray (item_data (validate rt item) xs)"
        by (auto split: if_splits)
      from ok have all_ok: "\<forall>x\<in>set xs. is_success (validate rt item x)"
        by (simp add: item_errors_empty_iff)
      let ?ys = "map (\<lambda>x. data (validate rt item x)) xs"
      have d': "d = JArray ?ys"
        using d item_data_all[OF all_ok] by simp
      have item_ok: "own_keys_only rt item"
        using "1.prems"(1) ArrayValidator by simp
      have stable: "\<forall>y\<in>set ?ys. validate rt item y = Success y"
      proof
        fix y assume "y \<in> set ?ys"
        then obtain x where x: "x \<in> set xs" and y: "y = data (validate rt item x)" by auto
        from all_ok x y have "validate rt item x = Success y" by simp
        from "1.IH"(1)[OF False ArrayValidator item_ok this]
        show "validate rt item y = Success y" .
      qed
      have base2: "BaseValidator_validate rt ?V (JArray ?ys) = Success (JArray ?ys)"
        by (rule BaseValidator_validate_JArray[OF cls])
          (rule run_rules_JArray_length[OF _ rr], simp)
      from item_results_stable[OF stable, of 0]
        ArrayValidator_validate_result[OF base2, of "validate rt item"]
      have "ArrayValidator_validate rt ?V (validate rt item) (JArray ?ys) = Success (JArray ?ys)"
        by simp
      with again[OF base2[folded d']] cls d' show ?thesis by simp
    next
      case (ObjectValidator sch)
      have cls: "vclass ?V = ObjectValidator sch" by (simp add: ObjectValidator)
      have dist: "distinct (map fst sch)"
        and keys: "\<forall>(key, v)\<in>set sch.
          key \<noteq> ''__proto__'' \<and> object_prototype rt key = JUndefined \<and> own_keys_only rt v"
        using "1.prems"(1) ObjectValidator by simp_all
      let ?fs = "schema_validators rt sch"
      have dist': "distinct (map fst ?fs)" using dist by simp
      from first "1.prems"(2) ObjectValidator
      have ov: "ObjectValidator_validate rt ?V ?fs value = Success d"
        by (simp add: schema_validators_def)
      then obtain ov where base: "BaseValidator_validate rt ?V value = Success ov"
        by (auto simp: ObjectValidator_validate_def split: validation_result.splits)
      from ov ObjectValidator_validate_result[OF base dist']
      have ok: "field_errors rt ov ?fs = []" and d: "d = JObject (field_data rt ov ?fs)"
        by (auto split: if_splits)
      let ?out = "field_data rt ov ?fs"
      have stable: "\<forall>(k, f)\<in>set ?fs. is_success (f (get_prop rt ov k)) \<and>
              f (get_prop rt (JObject ?out) k) = Success (data (f (get_prop rt ov k)))"
      proof (clarify, intro conjI)
        fix k f assume mem: "(k, f) \<in> set ?fs"
        then obtain v where kv: "(k, v) \<in> set sch" and f: "f = validate rt v"
          by (auto simp: schema_validators_mem)
        from keys kv have named: "k \<noteq> ''__proto__''"
          and proto: "object_prototype rt k = JUndefined" and sub: "own_keys_only rt v"
          by auto
        from ok mem named show s: "is_success (f (get_prop rt ov k))"
          by (auto simp: field_errors_empty_iff)
        let ?dk = "data (f (get_prop rt ov k))"
        from s have r: "validate rt v (get_prop rt ov k) = Success ?dk"
          by (simp add: f)
        have "get_prop rt (JObject ?out) k = ?dk"
          using get_prop_field_data[OF dist' mem s named] proto by simp
        moreover from "1.IH"(2)[OF False ObjectValidator kv refl sub r]
        have "validate rt v ?dk = Success ?dk" .
        ultimately show "f (get_prop rt (JObject ?out) k) = Success ?dk"
          by (simp add: f)
      qed
      have base2: "BaseValidator_validate rt ?V (JObject ?out) = Success (JObject ?out)"
        by (rule BaseValidator_validate_JObject[OF cls])
      from field_results_stable[OF stable]
        ObjectValidator_validate_result[OF base2 dist']
      have "ObjectValidator_validate rt ?V ?fs (JObject ?out) = Success (JObject ?out)"
        by simp
      with again[OF base2[folded d]] cls d show ?thesis
        by (simp add: schema_validators_def)
    next
      case StringValidator
      with first "1.prems"(2) have b: "BaseValidator_validate rt ?V value = Success d" by simp
      from again[OF BaseValidator_validate_idem[OF b]] BaseValidator_validate_idem[OF b]
        StringValidator show ?thesis by simp
    next
      case NumberValidator
      with first "1.prems"(2) have b: "BaseValidator_validate rt ?V value = Success d" by simp
      from again[OF BaseValidator_validate_idem[OF b]] BaseValidator_validate_idem[OF b]
        NumberValidator show ?thesis by simp
    next
      case BooleanValidator
      with first "1.prems"(2) have b: "BaseValidator_validate rt ?V value = Success d" by simp
      from again[OF BaseValidator_validate_idem[OF b]] BaseValidator_validate_idem[OF b]
        BooleanValidator show ?thesis by simp
    next
      case DateValidator
      with first "1.prems"(2) have b: "BaseValidator_validate rt ?V value = Success d" by simp
      from again[OF BaseValidator_validate_idem[OF b]] BaseValidator_validate_idem[OF b]
        DateValidator show ?thesis by simp
    qed
  qed
qed

text \<open>An array of date strings: the dates parsed by the first pass validate to themselves.\<close>

lemma revalidation_stable_example:
  "validate example_runtime (Schema_array Schema_date) (JArray [JString ''2024-01-01''])
     = Success (JArray [JDate (Some 1704067200000)]) \<and>
   validate example_runtime (Schema_array Schema_date) (JArray [JDate (Some 1704067200000)])
     = Success (JArray [JDate (Some 1704067200000)])"
proof -
  have first: "validate example_runtime (Schema_array Schema_date) (JArray [JString ''2024-01-01''])
     = Success (JArray [JDate (Some 1704067200000)])"
    by (simp add: example_defs example_date_parse_def)
  have "own_keys_only example_runtime (Schema_array Schema_date)"
    by (simp add: example_defs)
  from revalidation_stable[OF this first] first show ?thesis by simp
qed

section \<open>C10: withMessage() after optional()\<close>

text \<open>
  Claim C10 says that \<^verbatim>\<open>v.optional().withMessage(m)\<close> fails on \<^verbatim>\<open>null\<close> and
  \<^verbatim>\<open>undefined\<close> with the message \<open>m\<close>, for every \<open>m\<close>. With the empty message the
  failure carries the default message of the class instead, since
  \<^verbatim>\<open>this.baseErrorMessage || '...'\<close> takes the empty string as absent.
\<close>

theorem optional_withMessage_counterexample:
  "validate example_runtime (withMessage (optional Schema_string) '''') JNull
     = Failure (ErrorMessage ''Value must be a string'') \<and>
   validate example_runtime (withMessage (optional Schema_string) '''') JNull
     \<noteq> Failure (ErrorMessage '''')"
  by (simp add: example_defs)

text \<open>
  Claim C10, amended. For every validator \<open>v\<close> and message \<open>m\<close>, the validator
  \<^verbatim>\<open>v.optional().withMessage(m)\<close> keeps \<^verbatim>\<open>isOptional\<close> but has lost the own
  \<^verbatim>\<open>validate\<close> of \<^verbatim>\<open>optional()\<close>: on \<^verbatim>\<open>null\<close> and \<^verbatim>\<open>undefined\<close> it returns the
  failure of the type check under the message \<open>m\<close>, which is \<open>m\<close> itself when \<open>m\<close>
  is not empty.
\<close>

theorem optional_withMessage_rejects_absent:
  assumes "value = JNull \<or> value = JUndefined"
  shows "validate rt (withMessage (optional v) m) value = validateType rt (vclass v) (Some m) value
    \<and> \<not> is_success (validate rt (withMessage (optional v) m) value)
    \<and> (m \<noteq> [] \<longrightarrow> validate rt (withMessage (optional v) m) value = Failure (ErrorMessage m))
    \<and> isOptional (withMessage (optional v) m)
    \<and> \<not> ownValidate (withMessage (optional v) m)"
proof -
  have eq: "validate rt (withMessage (optional v) m) value = validateType rt (vclass v) (Some m) value"
    using validate_own_False_absent[OF assms, of "withMessage (optional v) m" rt] by simp
  from validateType_absent[OF assms] obtain dflt where
    f: "validateType rt (vclass v) (Some m) value = Failure (ErrorMessage (or_default (Some m) dflt))"
    by blast
  show ?thesis
    using eq f by (simp add: or_default_def)
qed

text \<open>At \<^verbatim>\<open>string().optional().withMessage('Name is required')\<close>.\<close>

theorem optional_withMessage_rejects_absent_witness:
  "validate example_runtime (withMessage (optional Schema_string) ''Name is required'') JNull
     = Failure (ErrorMessage ''Name is required'') \<and>
   validate example_runtime (withMessage (optional Schema_string) ''Name is required'') JUndefined
     = Failure (ErrorMessage ''Name is required'')"
  using optional_withMessage_rejects_absent[of JNull example_runtime Schema_string "''Name is required''"]
    optional_withMessage_rejects_absent[of JUndefined example_runtime Schema_string "''Name is required''"]
  by blast

end
